theory Spec2Isabelle
  imports Complex_Main
begin

section \<open>Exercise tracker: the request handlers of \<open>index.js\<close>\<close>

text \<open>
  The service keeps two collections (users, exercises) and answers every request with a
  JSON body: either \<open>{error: message}\<close> or a result object. The two handlers verified
  here are \<open>POST /api/users/:_id/exercises\<close> (\<open>addExercise\<close>) and
  \<open>GET /api/users/:_id/logs\<close> (\<open>getLog\<close>).

  The model covers the requests whose fields are text or absent, as url-encoded forms
  and query strings send them: the route parameter is a string, and a form field or a
  query parameter is a \<open>string option\<close>, \<open>None\<close> for \<open>undefined\<close>. A character is one
  code unit below 256. A number carries the mathematical value of its literal: the
  rounding to the nearest double (and to an infinity beyond the range of doubles) is
  not modelled. The store answers every operation: a failure of the connection is not
  modelled.
\<close>

subsection \<open>JavaScript values and built-ins used by the handlers\<close>

text \<open>
  A JavaScript Number: \<open>NaN\<close>, an infinity (\<open>Infinity True\<close> is \<open>-Infinity\<close>) or a
  finite value.
\<close>

datatype number = NaN | Infinity bool | Finite rat

definition isNaN :: "number \<Rightarrow> bool" where
  "isNaN n = (n = NaN)"

text \<open>Truthiness of a field: \<open>undefined\<close> and the empty string are falsy.\<close>

fun truthy :: "string option \<Rightarrow> bool" where
  "truthy None = False"
| "truthy (Some s) = (s \<noteq> [])"

text \<open>\<open>charCodeAt\<close>: the code unit of a character.\<close>

definition charCode :: "char \<Rightarrow> nat" where
  "charCode c = of_char c"

definition isDigit :: "char \<Rightarrow> bool" where
  "isDigit c = (48 \<le> charCode c \<and> charCode c \<le> 57)"

text \<open>The value of a character as a digit of a radix up to 16, if it is one.\<close>

definition radixDigit :: "nat \<Rightarrow> char \<Rightarrow> nat option" where
  "radixDigit radix c =
     (let n = charCode c;
          v = (if 48 \<le> n \<and> n \<le> 57 then Some (n - 48)
               else if 97 \<le> n \<and> n \<le> 102 then Some (n - 87)
               else if 65 \<le> n \<and> n \<le> 70 then Some (n - 55)
               else None)
      in case v of None \<Rightarrow> None | Some d \<Rightarrow> if d < radix then Some d else None)"

definition isRadixDigit :: "nat \<Rightarrow> char \<Rightarrow> bool" where
  "isRadixDigit radix c = (radixDigit radix c \<noteq> None)"

text \<open>The number written by a string of digits, most significant first.\<close>

definition radixVal :: "nat \<Rightarrow> string \<Rightarrow> nat" where
  "radixVal radix ds =
     foldl (\<lambda>acc c. acc * radix + (case radixDigit radix c of None \<Rightarrow> 0 | Some d \<Rightarrow> d)) 0 ds"

text \<open>
  White space and line terminators among the code units below 256: TAB, LF, VT, FF, CR,
  SP and NBSP.
\<close>

definition isWhiteSpace :: "char \<Rightarrow> bool" where
  "isWhiteSpace c = (charCode c \<in> {9, 10, 11, 12, 13, 32, 160})"

definition trimStart :: "string \<Rightarrow> string" where
  "trimStart s = dropWhile isWhiteSpace s"

definition trim :: "string \<Rightarrow> string" where
  "trim s = rev (dropWhile isWhiteSpace (rev (dropWhile isWhiteSpace s)))"

text \<open>An optional leading sign: \<open>True\<close> for \<open>-\<close>, and the rest of the string.\<close>

fun stripSign :: "string \<Rightarrow> bool \<times> string" where
  "stripSign [] = (False, [])"
| "stripSign (c # cs) =
     (if c = CHR ''-'' then (True, cs) else if c = CHR ''+'' then (False, cs) else (False, c # cs))"

text \<open>
  \<open>0x\<close>, \<open>0o\<close> and \<open>0b\<close> literals of \<open>Number(string)\<close>: the radix and the digits after
  the prefix.
\<close>

fun nonDecimalPrefix :: "string \<Rightarrow> (nat \<times> string) option" where
  "nonDecimalPrefix (z # p # ds) =
     (if z \<noteq> CHR ''0'' then None
      else if p = CHR ''x'' \<or> p = CHR ''X'' then Some (16, ds)
      else if p = CHR ''o'' \<or> p = CHR ''O'' then Some (8, ds)
      else if p = CHR ''b'' \<or> p = CHR ''B'' then Some (2, ds)
      else None)"
| "nonDecimalPrefix _ = None"

text \<open>The exponent part after the mantissa: nothing, or \<open>e\<close> with a signed integer.\<close>

definition exponentPart :: "string \<Rightarrow> int option" where
  "exponentPart r =
     (case r of
        [] \<Rightarrow> Some 0
      | c # cs \<Rightarrow>
          if c = CHR ''e'' \<or> c = CHR ''E'' then
            (let (neg, ds) = stripSign cs in
             if ds \<noteq> [] \<and> list_all isDigit ds
             then Some (if neg then - int (radixVal 10 ds) else int (radixVal 10 ds))
             else None)
          else None)"

definition scale10 :: "rat \<Rightarrow> int \<Rightarrow> rat" where
  "scale10 q e = (if 0 \<le> e then q * 10 ^ nat e else q / 10 ^ nat (- e))"

text \<open>A decimal literal without its sign: digits, an optional fraction, an optional exponent.\<close>

definition unsignedDecimal :: "string \<Rightarrow> rat option" where
  "unsignedDecimal s =
     (let ip = takeWhile isDigit s;
          r1 = dropWhile isDigit s;
          fp = (case r1 of c # cs \<Rightarrow> if c = CHR ''.'' then takeWhile isDigit cs else [] | [] \<Rightarrow> []);
          r2 = (case r1 of c # cs \<Rightarrow> if c = CHR ''.'' then dropWhile isDigit cs else r1 | [] \<Rightarrow> [])
      in if ip = [] \<and> fp = [] then None
         else case exponentPart r2 of
                None \<Rightarrow> None
              | Some e \<Rightarrow> Some (scale10 (of_nat (radixVal 10 (ip @ fp))) (e - int (length fp))))"

text \<open>
  \<open>Number(s)\<close> on a string: white space is trimmed, the empty string is 0, then a
  non-decimal literal, a signed \<open>Infinity\<close> or a signed decimal literal; anything else
  is \<open>NaN\<close>.
\<close>

definition Number :: "string \<Rightarrow> number" where
  "Number s =
     (let t = trim s in
      if t = [] then Finite 0
      else case nonDecimalPrefix t of
        Some (radix, ds) \<Rightarrow>
          if ds \<noteq> [] \<and> list_all (isRadixDigit radix) ds
          then Finite (of_nat (radixVal radix ds)) else NaN
      | None \<Rightarrow>
          (let (neg, u) = stripSign t in
           if u = ''Infinity'' then Infinity neg
           else case unsignedDecimal u of
                  None \<Rightarrow> NaN
                | Some q \<Rightarrow> Finite (if neg then - q else q)))"

text \<open>
  \<open>parseInt(s)\<close> with no radix argument: leading white space and a sign are skipped, a
  \<open>0x\<close> prefix selects radix 16, and the longest prefix of digits is read; \<open>None\<close> is
  \<open>NaN\<close>.
\<close>

definition parseInt :: "string \<Rightarrow> int option" where
  "parseInt s =
     (let (neg, u) = stripSign (trimStart s);
          (radix, v) = (case nonDecimalPrefix u of
                          Some (r, ds) \<Rightarrow> if r = 16 then (16, ds) else (10, u)
                        | None \<Rightarrow> (10, u));
          ds = takeWhile (isRadixDigit radix) v
      in if ds = [] then None
         else Some (if neg then - int (radixVal radix ds) else int (radixVal radix ds)))"

subsection \<open>Time values and the calendar of \<open>Date\<close>\<close>

text \<open>
  A \<open>Date\<close> object holds a time value, an integer number of milliseconds since
  1970-01-01T00:00:00Z of magnitude at most 8.64e15, or \<open>NaN\<close> (an invalid date):
  an \<open>int option\<close>.
\<close>

definition msPerDay :: int where
  "msPerDay = 86400000"

definition TimeClip :: "int \<Rightarrow> int option" where
  "TimeClip t = (if \<bar>t\<bar> \<le> 8640000000000000 then Some t else None)"

definition Day :: "int \<Rightarrow> int" where
  "Day t = t div msPerDay"

definition TimeWithinDay :: "int \<Rightarrow> int" where
  "TimeWithinDay t = t mod msPerDay"

definition isLeapYear :: "int \<Rightarrow> bool" where
  "isLeapYear y = (y mod 4 = 0 \<and> (y mod 100 \<noteq> 0 \<or> y mod 400 = 0))"

definition DaysInYear :: "int \<Rightarrow> int" where
  "DaysInYear y = (if isLeapYear y then 366 else 365)"

definition DayFromYear :: "int \<Rightarrow> int" where
  "DayFromYear y = 365 * (y - 1970) + (y - 1969) div 4 - (y - 1901) div 100 + (y - 1601) div 400"

text \<open>A year adds its own length to the day number of the next year.\<close>

lemma div_step:
  fixes a k :: int
  assumes k: "0 < k"
  shows "(a + 1) div k = a div k + (if (a + 1) mod k = 0 then 1 else 0)"
proof -
  define q where "q = a div k"
  define r where "r = a mod k"
  have a: "a = k * q + r" and r: "0 \<le> r" "r < k"
    using k by (simp_all add: q_def r_def)
  show ?thesis
  proof (cases "r = k - 1")
    case True
    then have e: "a + 1 = k * (q + 1) + 0" using a by (simp add: algebra_simps)
    have "(a + 1) div k = q + 1" by (rule int_div_pos_eq[OF e]) (use k in simp_all)
    moreover have "(a + 1) mod k = 0" by (rule int_mod_pos_eq[OF e]) (use k in simp_all)
    ultimately show ?thesis by (simp add: q_def)
  next
    case False
    then have lt: "r + 1 < k" using r by simp
    have e: "a + 1 = k * q + (r + 1)" using a by simp
    have "(a + 1) div k = q" by (rule int_div_pos_eq[OF e]) (use r lt in simp_all)
    moreover have "(a + 1) mod k = r + 1" by (rule int_mod_pos_eq[OF e]) (use r lt in simp_all)
    ultimately show ?thesis using r by (simp add: q_def)
  qed
qed

lemma mod_shift: "(y - c * k) mod k = y mod k" for y c k :: int
  by (metis mod_mult_self1 diff_conv_add_uminus mult_minus_left)

lemma div4_step: "(y - 1968) div 4 = (y - 1969) div 4 + (if y mod 4 = 0 then 1 else 0)"
  for y :: int
  using div_step [of 4 "y - 1969"] mod_shift [of y 492 4] by simp

lemma div100_step: "(y - 1900) div 100 = (y - 1901) div 100 + (if y mod 100 = 0 then 1 else 0)"
  for y :: int
  using div_step [of 100 "y - 1901"] mod_shift [of y 19 100] by simp

lemma div400_step: "(y - 1600) div 400 = (y - 1601) div 400 + (if y mod 400 = 0 then 1 else 0)"
  for y :: int
  using div_step [of 400 "y - 1601"] mod_shift [of y 4 400] by simp

lemma mod400_mod100: "y mod 400 = 0 \<Longrightarrow> y mod 100 = 0" for y :: int
  by (simp add: mod_eq_0_iff_dvd, erule dvd_trans[rotated], simp)

lemma mod100_mod4: "y mod 100 = 0 \<Longrightarrow> y mod 4 = 0" for y :: int
  by (simp add: mod_eq_0_iff_dvd, erule dvd_trans[rotated], simp)

lemma DayFromYear_Suc: "DayFromYear (y + 1) = DayFromYear y + DaysInYear y"
proof -
  define A where "A = (y - 1969) div 4"
  define B where "B = (y - 1901) div 100"
  define C where "C = (y - 1601) div 400"
  define p4 where "p4 \<longleftrightarrow> y mod 4 = 0"
  define p100 where "p100 \<longleftrightarrow> y mod 100 = 0"
  define p400 where "p400 \<longleftrightarrow> y mod 400 = 0"
  note defs = A_def B_def C_def p4_def p100_def p400_def
  have i1: "p400 \<Longrightarrow> p100" unfolding defs by (rule mod400_mod100)
  have i2: "p100 \<Longrightarrow> p4" unfolding defs by (rule mod100_mod4)
  have a: "(y + 1 - 1969) div 4 = A + (if p4 then 1 else 0)"
    using div4_step [of y] by (simp add: defs)
  have b: "(y + 1 - 1901) div 100 = B + (if p100 then 1 else 0)"
    using div100_step [of y] by (simp add: defs)
  have c: "(y + 1 - 1601) div 400 = C + (if p400 then 1 else 0)"
    using div400_step [of y] by (simp add: defs)
  have l: "isLeapYear y \<longleftrightarrow> p4 \<and> (\<not> p100 \<or> p400)"
    by (simp add: isLeapYear_def defs)
  have "DayFromYear (y + 1) = 365 * (y + 1 - 1970) + (A + (if p4 then 1 else 0))
      - (B + (if p100 then 1 else 0)) + (C + (if p400 then 1 else 0))"
    unfolding DayFromYear_def a b c ..
  moreover have "DayFromYear y = 365 * (y - 1970) + A - B + C"
    unfolding DayFromYear_def defs ..
  ultimately show ?thesis
    using i1 i2 by (cases p4; cases p100; cases p400; simp add: DaysInYear_def l)
qed

lemma DayFromYear_less: "DayFromYear y < DayFromYear (y + 1)"
  by (simp add: DayFromYear_Suc DaysInYear_def)

text \<open>
  The year of a day number: the largest \<open>y\<close> with \<open>DayFromYear y \<le> d\<close>, found by
  counting up from a year that is not after it.
\<close>

function yearSearch :: "int \<Rightarrow> int \<Rightarrow> int" where
  "yearSearch y d = (if DayFromYear (y + 1) \<le> d then yearSearch (y + 1) d else y)"
  by pat_completeness auto
termination
proof (relation "measure (\<lambda>(y, d). nat (d + 1 - DayFromYear (y + 1)))")
  show "wf (measure (\<lambda>(y, d). nat (d + 1 - DayFromYear (y + 1))))" by simp
next
  fix y d :: int
  assume "DayFromYear (y + 1) \<le> d"
  moreover have "DayFromYear (y + 1) < DayFromYear (y + 1 + 1)" by (rule DayFromYear_less)
  ultimately show "((y + 1, d), (y, d)) \<in> measure (\<lambda>(y, d). nat (d + 1 - DayFromYear (y + 1)))"
    by simp
qed

definition YearFromDay :: "int \<Rightarrow> int" where
  "YearFromDay d = yearSearch (1970 + (if 0 \<le> d then d div 366 else d div 365)) d"

definition YearFromTime :: "int \<Rightarrow> int" where
  "YearFromTime t = YearFromDay (Day t)"

definition DayWithinYear :: "int \<Rightarrow> int" where
  "DayWithinYear t = Day t - DayFromYear (YearFromTime t)"

definition monthLengths :: "bool \<Rightarrow> int list" where
  "monthLengths leap = [31, if leap then 29 else 28, 31, 30, 31, 30, 31, 31, 30, 31, 30, 31]"

text \<open>
  The month (from 0) and the day of the month (from 1) of a day within the year, given the
  lengths of the months.
\<close>

fun monthDay :: "int list \<Rightarrow> int \<Rightarrow> nat \<times> int" where
  "monthDay [] d = (0, d + 1)"
| "monthDay (l # ls) d =
     (if d < l then (0, d + 1) else (let (m, dd) = monthDay ls (d - l) in (Suc m, dd)))"

definition MonthFromTime :: "int \<Rightarrow> nat" where
  "MonthFromTime t = fst (monthDay (monthLengths (isLeapYear (YearFromTime t))) (DayWithinYear t))"

definition DateFromTime :: "int \<Rightarrow> int" where
  "DateFromTime t = snd (monthDay (monthLengths (isLeapYear (YearFromTime t))) (DayWithinYear t))"

definition WeekDay :: "int \<Rightarrow> nat" where
  "WeekDay t = nat ((Day t + 4) mod 7)"

definition HourFromTime :: "int \<Rightarrow> int" where
  "HourFromTime t = (t div 3600000) mod 24"

definition MinFromTime :: "int \<Rightarrow> int" where
  "MinFromTime t = (t div 60000) mod 60"

definition SecFromTime :: "int \<Rightarrow> int" where
  "SecFromTime t = (t div 1000) mod 60"

definition msFromTime :: "int \<Rightarrow> int" where
  "msFromTime t = t mod 1000"

text \<open>\<open>MakeDay\<close> for a month from 0 to 11, \<open>MakeTime\<close> and \<open>MakeDate\<close>.\<close>

definition MakeDay :: "int \<Rightarrow> nat \<Rightarrow> int \<Rightarrow> int" where
  "MakeDay y m d = DayFromYear y + sum_list (take m (monthLengths (isLeapYear y))) + d - 1"

definition MakeTime :: "int \<Rightarrow> int \<Rightarrow> int \<Rightarrow> int \<Rightarrow> int" where
  "MakeTime h mi sec ms = h * 3600000 + mi * 60000 + sec * 1000 + ms"

definition MakeDate :: "int \<Rightarrow> int \<Rightarrow> int" where
  "MakeDate day time = day * msPerDay + time"

subsection \<open>Formatting and parsing dates\<close>

text \<open>The character of a decimal digit.\<close>

definition digitChar :: "nat \<Rightarrow> char" where
  "digitChar n = ''0123456789'' ! n"

fun decimal :: "nat \<Rightarrow> string" where
  "decimal n = (if n < 10 then [digitChar n] else decimal (n div 10) @ [digitChar (n mod 10)])"

declare decimal.simps [simp del]

text \<open>\<open>String(n).padStart(k, "0")\<close>.\<close>

definition padStart :: "nat \<Rightarrow> nat \<Rightarrow> string" where
  "padStart k n = replicate (k - length (decimal n)) CHR ''0'' @ decimal n"

text \<open>
  The year of \<open>toISOString\<close>: four digits from 0 to 9999, otherwise a sign and six digits.
\<close>

definition isoYearString :: "int \<Rightarrow> string" where
  "isoYearString y =
     (if 0 \<le> y \<and> y \<le> 9999 then padStart 4 (nat y)
      else (if y < 0 then CHR ''-'' else CHR ''+'') # padStart 6 (nat \<bar>y\<bar>))"

text \<open>\<open>toISOString\<close> of a valid time value: \<open>YYYY-MM-DDTHH:mm:ss.sssZ\<close>.\<close>

definition toISOString :: "int \<Rightarrow> string" where
  "toISOString t =
     isoYearString (YearFromTime t) @ ''-'' @ padStart 2 (MonthFromTime t + 1) @ ''-''
       @ padStart 2 (nat (DateFromTime t)) @ ''T'' @ padStart 2 (nat (HourFromTime t)) @ '':''
       @ padStart 2 (nat (MinFromTime t)) @ '':'' @ padStart 2 (nat (SecFromTime t)) @ ''.''
       @ padStart 3 (nat (msFromTime t)) @ ''Z''"

text \<open>\<open>s.split('T')[0]\<close>: the part of a string before its first \<open>T\<close>.\<close>

definition splitT0 :: "string \<Rightarrow> string" where
  "splitT0 s = takeWhile (\<lambda>c. c \<noteq> CHR ''T'') s"

text \<open>A field of exactly \<open>k\<close> decimal digits at the start of a string.\<close>

definition fixedDigits :: "nat \<Rightarrow> string \<Rightarrow> int option" where
  "fixedDigits k s =
     (if k \<le> length s \<and> list_all isDigit (take k s) then Some (int (radixVal 10 (take k s)))
      else None)"

text \<open>The year of a date-time string and the rest of the string behind it.\<close>

definition isoYear :: "string \<Rightarrow> (int \<times> string) option" where
  "isoYear s =
     (case s of
        [] \<Rightarrow> None
      | c # cs \<Rightarrow>
          if c = CHR ''+'' \<or> c = CHR ''-'' then
            (case fixedDigits 6 cs of
               None \<Rightarrow> None
             | Some y \<Rightarrow> if c = CHR ''-'' \<and> y = 0 then None
                         else Some (if c = CHR ''-'' then - y else y, drop 6 cs))
          else (case fixedDigits 4 s of None \<Rightarrow> None | Some y \<Rightarrow> Some (y, drop 4 s)))"

text \<open>The fields of \<open>-MM-DDTHH:mm:ssZ\<close>.\<close>

definition isoFields :: "string \<Rightarrow> (int \<times> int \<times> int \<times> int \<times> int) option" where
  "isoFields r =
     (if length r = 16 \<and> r ! 0 = CHR ''-'' \<and> r ! 3 = CHR ''-'' \<and> r ! 6 = CHR ''T''
         \<and> r ! 9 = CHR '':'' \<and> r ! 12 = CHR '':'' \<and> r ! 15 = CHR ''Z''
      then (case (fixedDigits 2 (drop 1 r), fixedDigits 2 (drop 4 r), fixedDigits 2 (drop 7 r),
                  fixedDigits 2 (drop 10 r), fixedDigits 2 (drop 13 r)) of
              (Some mo, Some d, Some h, Some mi, Some sec) \<Rightarrow> Some (mo, d, h, mi, sec)
            | _ \<Rightarrow> None)
      else None)"

text \<open>
  A string of the shape \<open>YYYY-MM-DDTHH:mm:ssZ\<close> (or with an expanded year
  \<open>\<plusminus>YYYYYY\<close>) that names a day of the calendar and a time of the day: its
  instant in UTC, before clipping.
\<close>

definition isoDateTime :: "string \<Rightarrow> int option" where
  "isoDateTime s =
     (case isoYear s of
        None \<Rightarrow> None
      | Some (y, r) \<Rightarrow>
          (case isoFields r of
             None \<Rightarrow> None
           | Some (mo, d, h, mi, sec) \<Rightarrow>
               if 1 \<le> mo \<and> mo \<le> 12 \<and> 1 \<le> d
                  \<and> d \<le> monthLengths (isLeapYear y) ! nat (mo - 1)
                  \<and> h \<le> 23 \<and> mi \<le> 59 \<and> sec \<le> 59
               then Some (MakeDate (MakeDay y (nat (mo - 1)) d) (MakeTime h mi sec 0))
               else None))"

subsection \<open>The environment of the server\<close>

text \<open>
  An \<open>ObjectId\<close> of the store is written as its hexadecimal string. Three things are
  fixed by the server's environment, not by \<open>index.js\<close>, and are parameters of the model:

  \<^item> \<open>ObjectId\<close>: the driver's constructor of an id from a string, \<open>None\<close> where it
    throws. \<open>mongoose.Types.ObjectId.isValid\<close> tells whether it succeeds, and mongoose
    casts the id strings of queries and documents with it.
  \<^item> \<open>parseOther\<close>: what the engine's \<open>Date.parse\<close> returns on a string that is not a
    date-time of the shape read by \<open>isoDateTime\<close> (\<open>None\<close> is \<open>NaN\<close>).
  \<^item> \<open>getTimezoneOffset\<close>: the difference in minutes between UTC and the server's local
    time at an instant, as \<open>Date.prototype.getTimezoneOffset\<close> returns it.
\<close>

type_synonym objectId = string

record env =
  ObjectId :: "string \<Rightarrow> objectId option"
  parseOther :: "string \<Rightarrow> int option"
  getTimezoneOffset :: "int \<Rightarrow> int"

text \<open>\<open>new Date(s)\<close> on a string: the time value of \<open>Date.parse(s)\<close>.\<close>

definition Date_parse :: "env \<Rightarrow> string \<Rightarrow> int option" where
  "Date_parse env s =
     (case isoDateTime s of
        Some t \<Rightarrow> TimeClip t
      | None \<Rightarrow> (case parseOther env s of None \<Rightarrow> None | Some t \<Rightarrow> TimeClip t))"

text \<open>The local time of an instant.\<close>

definition LocalTime :: "env \<Rightarrow> int \<Rightarrow> int" where
  "LocalTime env t = t - getTimezoneOffset env t * 60000"

definition weekdayNames :: "string list" where
  "weekdayNames = [''Sun'', ''Mon'', ''Tue'', ''Wed'', ''Thu'', ''Fri'', ''Sat'']"

definition monthNames :: "string list" where
  "monthNames = [''Jan'', ''Feb'', ''Mar'', ''Apr'', ''May'', ''Jun'',
                 ''Jul'', ''Aug'', ''Sep'', ''Oct'', ''Nov'', ''Dec'']"

text \<open>
  \<open>toDateString\<close>: the local day of a date as weekday, month, day and year, or
  \<open>Invalid Date\<close>.
\<close>

definition toDateString :: "env \<Rightarrow> int option \<Rightarrow> string" where
  "toDateString env d =
     (case d of
        None \<Rightarrow> ''Invalid Date''
      | Some tv \<Rightarrow>
          (let t = LocalTime env tv; y = YearFromTime t
           in weekdayNames ! WeekDay t @ '' '' @ monthNames ! MonthFromTime t @ '' ''
                @ padStart 2 (nat (DateFromTime t)) @ '' ''
                @ (if y < 0 then ''-'' else []) @ padStart 4 (nat \<bar>y\<bar>)))"

subsection \<open>The collections\<close>

record user =
  user_id :: objectId
  username :: string

record exercise =
  userId :: objectId
  description :: string
  duration :: number
  date :: int

record store =
  users :: "user list"
  exercises :: "exercise list"

definition isValid :: "env \<Rightarrow> string \<Rightarrow> bool" where
  "isValid env s = (ObjectId env s \<noteq> None)"

definition findById :: "env \<Rightarrow> user list \<Rightarrow> string \<Rightarrow> user option" where
  "findById env us s =
     (case ObjectId env s of None \<Rightarrow> None | Some oid \<Rightarrow> find (\<lambda>u. user_id u = oid) us)"

text \<open>The text of a field that is known to be truthy.\<close>

fun text_of :: "string option \<Rightarrow> string" where
  "text_of None = []"
| "text_of (Some s) = s"

subsection \<open>\<open>POST /api/users/:_id/exercises\<close>\<close>

text \<open>
  The date shown to the client: the time value minus the timezone offset, as a new
  \<open>Date\<close>, through \<open>toDateString\<close>.
\<close>

definition renderDate :: "env \<Rightarrow> int \<Rightarrow> string" where
  "renderDate env t = toDateString env (TimeClip (t - getTimezoneOffset env t * 60000))"

record exerciseResponse =
  res_id :: objectId
  res_username :: string
  res_description :: string
  res_duration :: number
  res_date :: string

text \<open>
  The date of the new exercise: UTC noon of the supplied day, or of the day of
  \<open>now.toISOString()\<close> when no date is supplied.
\<close>

definition exerciseDate :: "env \<Rightarrow> int \<Rightarrow> string option \<Rightarrow> int option" where
  "exerciseDate env now date' =
     (if truthy date' then Date_parse env (text_of date' @ ''T12:00:00Z'')
      else Date_parse env (splitT0 (toISOString now) @ ''T12:00:00Z''))"

text \<open>
  The handler, on the reading \<open>now\<close> of the server's clock (the time value of
  \<open>new Date()\<close>). It answers with an error message or with the user and the exercise,
  and returns the collections. An exercise with an invalid date fails the validation of
  \<open>save\<close>; the handler catches that and answers \<open>Failed to add exercise\<close>.
\<close>

definition addExercise ::
  "env \<Rightarrow> int \<Rightarrow> store \<Rightarrow> string \<Rightarrow> string option \<Rightarrow> string option \<Rightarrow> string option
     \<Rightarrow> (string + exerciseResponse) \<times> store" where
  "addExercise env now db uid description' duration' date' =
     (if \<not> isValid env uid then (Inl ''Invalid user ID format'', db)
      else case findById env (users db) uid of
        None \<Rightarrow> (Inl ''User not found'', db)
      | Some u \<Rightarrow>
          if \<not> truthy description' \<or> \<not> truthy duration'
          then (Inl ''Description and duration are required'', db)
          else let durationNum = Number (text_of duration') in
            if isNaN durationNum then (Inl ''Duration must be a number'', db)
            else if truthy date' \<and> exerciseDate env now date' = None
            then (Inl ''Invalid date format'', db)
            else case exerciseDate env now date' of
              None \<Rightarrow> (Inl ''Failed to add exercise'', db)
            | Some t \<Rightarrow>
                (Inr \<lparr>res_id = user_id u, res_username = username u,
                      res_description = text_of description', res_duration = durationNum,
                      res_date = renderDate env t\<rparr>,
                 db\<lparr>exercises := exercises db
                      @ [\<lparr>userId = the (ObjectId env uid), description = text_of description',
                          duration = durationNum, date = t\<rparr>]\<rparr>))"

subsection \<open>\<open>GET /api/users/:_id/logs\<close>\<close>

text \<open>The query object: the user and the optional bounds \<open>$gte\<close> and \<open>$lte\<close> on the date.\<close>

record query =
  q_userId :: objectId
  q_gte :: "int option"
  q_lte :: "int option"

definition matches :: "query \<Rightarrow> exercise \<Rightarrow> bool" where
  "matches q e =
     (userId e = q_userId q
      \<and> (case q_gte q of None \<Rightarrow> True | Some f \<Rightarrow> f \<le> date e)
      \<and> (case q_lte q of None \<Rightarrow> True | Some t \<Rightarrow> date e \<le> t))"

text \<open>
  \<open>Exercise.find(query).sort({date: 1})\<close>: the matching exercises by ascending date.
  The store does not say in which order it returns exercises of one date; the model keeps
  them in the order of their insertion.
\<close>

definition find_sorted :: "query \<Rightarrow> exercise list \<Rightarrow> exercise list" where
  "find_sorted q es = sort_key date (filter (matches q) es)"

definition countDocuments :: "objectId \<Rightarrow> exercise list \<Rightarrow> nat" where
  "countDocuments oid es = length (filter (\<lambda>e. userId e = oid) es)"

text \<open>
  The limit applied to the query: \<open>parseInt(limit)\<close> when it is a number above 0. The
  store returns the first that many exercises of the ordered result.
\<close>

definition applyLimit :: "string option \<Rightarrow> exercise list \<Rightarrow> exercise list" where
  "applyLimit limit' es =
     (if truthy limit' then
        (case parseInt (text_of limit') of
           None \<Rightarrow> es
         | Some limitNum \<Rightarrow> if limitNum > 0 then take (nat limitNum) es else es)
      else es)"

record logEntry =
  entry_description :: string
  entry_duration :: number
  entry_date :: string

definition logEntryOf :: "env \<Rightarrow> exercise \<Rightarrow> logEntry" where
  "logEntryOf env e =
     \<lparr>entry_description = description e, entry_duration = duration e,
      entry_date = renderDate env (date e)\<rparr>"

record logResponse =
  log_id :: objectId
  log_username :: string
  log_count :: nat
  log_entries :: "logEntry list"

definition getLog ::
  "env \<Rightarrow> store \<Rightarrow> string \<Rightarrow> string option \<Rightarrow> string option \<Rightarrow> string option
     \<Rightarrow> string + logResponse" where
  "getLog env db uid from' to' limit' =
     (if \<not> isValid env uid then Inl ''Invalid user ID format''
      else case findById env (users db) uid of
        None \<Rightarrow> Inl ''User not found''
      | Some u \<Rightarrow>
          (let fromDate = Date_parse env (text_of from' @ ''T00:00:00Z'');
               toDate = Date_parse env (text_of to' @ ''T23:59:59Z'')
           in if truthy from' \<and> fromDate = None then Inl ''Invalid from date format''
              else if truthy to' \<and> toDate = None then Inl ''Invalid to date format''
              else
                (let q = \<lparr>q_userId = the (ObjectId env uid),
                          q_gte = (if truthy from' then fromDate else None),
                          q_lte = (if truthy to' then toDate else None)\<rparr>;
                     found = applyLimit limit' (find_sorted q (exercises db))
                 in Inr \<lparr>log_id = user_id u, log_username = username u,
                         log_count = countDocuments (the (ObjectId env uid)) (exercises db),
                         log_entries = map (logEntryOf env) found\<rparr>)))"

subsection \<open>Notions of the specification\<close>

text \<open>The spec's words for a duration: a positive integer.\<close>

definition positiveInteger :: "number \<Rightarrow> bool" where
  "positiveInteger n = (case n of Finite q \<Rightarrow> 0 < q \<and> of_int \<lfloor>q\<rfloor> = q | _ \<Rightarrow> False)"

text \<open>
  The spec's words for a date input: a day of the calendar written \<open>YYYY-MM-DD\<close>, and
  its first instant in UTC.
\<close>

definition validCalendarDate :: "nat \<Rightarrow> nat \<Rightarrow> nat \<Rightarrow> bool" where
  "validCalendarDate y m d =
     (y \<le> 9999 \<and> 1 \<le> m \<and> m \<le> 12 \<and> 1 \<le> d
      \<and> int d \<le> monthLengths (isLeapYear (int y)) ! (m - 1))"

definition calendarDate :: "nat \<Rightarrow> nat \<Rightarrow> nat \<Rightarrow> string" where
  "calendarDate y m d = padStart 4 y @ ''-'' @ padStart 2 m @ ''-'' @ padStart 2 d"

definition utcMidnight :: "nat \<Rightarrow> nat \<Rightarrow> nat \<Rightarrow> int" where
  "utcMidnight y m d = MakeDay (int y) (m - 1) (int d) * msPerDay"

subsection \<open>A sample server\<close>

text \<open>
  The examples below run the handlers on a server whose driver takes 24 hexadecimal
  digits as an id (letters in lower case), whose engine parses no other date strings and
  whose zone has one fixed offset. The store has one user.
\<close>

definition toLowerHex :: "char \<Rightarrow> char" where
  "toLowerHex c = (if 65 \<le> charCode c \<and> charCode c \<le> 70 then char_of (charCode c + 32) else c)"

definition sampleObjectId :: "string \<Rightarrow> objectId option" where
  "sampleObjectId s =
     (if length s = 24 \<and> list_all (isRadixDigit 16) s then Some (map toLowerHex s) else None)"

definition sampleEnv :: "int \<Rightarrow> env" where
  "sampleEnv off =
     \<lparr>ObjectId = sampleObjectId, parseOther = (\<lambda>s. None), getTimezoneOffset = (\<lambda>t. off)\<rparr>"

definition bob :: string where
  "bob = ''65a4f8e2c1b2a3d4e5f60718''"

definition nobody :: string where
  "nobody = ''65a4f8e2c1b2a3d4e5f60719''"

definition sampleStore :: store where
  "sampleStore = \<lparr>users = [\<lparr>user_id = bob, username = ''bob''\<rparr>], exercises = []\<rparr>"

text \<open>
  Bob's exercises of 2024-01-03, 01, 04, 02 and 05, each stored at UTC noon, in this order
  of insertion.
\<close>

definition exerciseOn :: "int \<Rightarrow> exercise" where
  "exerciseOn t = \<lparr>userId = bob, description = ''run'', duration = Finite 30, date = t\<rparr>"

definition fiveDays :: store where
  "fiveDays = sampleStore\<lparr>exercises := map exerciseOn
     [1704283200000, 1704110400000, 1704369600000, 1704196800000, 1704456000000]\<rparr>"

text \<open>
  A store of two users: one exercise of Alice, then Bob's exercises of 2024-01-01, 05, 03,
  02 and 04, in this order of insertion.
\<close>

definition alice :: string where
  "alice = ''65a4f8e2c1b2a3d4e5f6071a''"

definition mixedStore :: store where
  "mixedStore =
     \<lparr>users = [\<lparr>user_id = alice, username = ''alice''\<rparr>, \<lparr>user_id = bob, username = ''bob''\<rparr>],
      exercises =
        [\<lparr>userId = alice, description = ''swim'', duration = Finite 45, date = 1704369600000\<rparr>,
         exerciseOn 1704110400000, exerciseOn 1704456000000, exerciseOn 1704283200000,
         exerciseOn 1704196800000, exerciseOn 1704369600000]\<rparr>"

section \<open>The built-ins\<close>

subsection \<open>Digits\<close>

lemma digit_range:
  fixes n :: nat
  assumes "n < 10"
  shows "n \<in> {0, 1, 2, 3, 4, 5, 6, 7, 8, 9}"
  using assms by auto

lemma radixDigit_digitChar: "n < 10 \<Longrightarrow> radixDigit 10 (digitChar n) = Some n"
  using digit_range [of n] by (auto simp add: radixDigit_def digitChar_def charCode_def)

lemma isDigit_digitChar: "n < 10 \<Longrightarrow> isDigit (digitChar n)"
  using digit_range [of n] by (auto simp add: isDigit_def digitChar_def charCode_def)

lemma radixVal_snoc:
  "radixVal r (ds @ [c]) = radixVal r ds * r + (case radixDigit r c of None \<Rightarrow> 0 | Some d \<Rightarrow> d)"
  by (simp add: radixVal_def)

lemma isDigit_decimal: "list_all isDigit (decimal n)"
proof (induction n rule: decimal.induct)
  case (1 n)
  show ?case
  proof (cases "n < 10")
    case True
    then show ?thesis by (simp add: decimal.simps [of n] isDigit_digitChar)
  next
    case False
    then show ?thesis using 1 by (simp add: decimal.simps [of n] isDigit_digitChar)
  qed
qed

lemma radixVal_decimal: "radixVal 10 (decimal n) = n"
proof (induction n rule: decimal.induct)
  case (1 n)
  show ?case
  proof (cases "n < 10")
    case True
    then show ?thesis
      by (simp add: decimal.simps [of n] radixVal_def radixDigit_digitChar)
  next
    case False
    then have "radixVal 10 (decimal (n div 10)) = n div 10" using 1 by simp
    then show ?thesis using False
      by (simp add: decimal.simps [of n] radixVal_snoc radixDigit_digitChar)
  qed
qed

lemma length_decimal: "n < 10 ^ k \<Longrightarrow> 0 < k \<Longrightarrow> length (decimal n) \<le> k"
proof (induction n arbitrary: k rule: decimal.induct)
  case (1 n)
  show ?case
  proof (cases "n < 10")
    case True
    then show ?thesis using 1(3) by (simp add: decimal.simps [of n])
  next
    case False
    then obtain j where k: "k = Suc j" and j: "0 < j"
      using 1(2,3) by (cases k; cases "k - 1") auto
    have "n div 10 < 10 ^ j" using 1(2) by (simp add: k less_mult_imp_div_less)
    then have "length (decimal (n div 10)) \<le> j" using 1(1) [OF False _ j] by simp
    then show ?thesis using False by (simp add: decimal.simps [of n] k)
  qed
qed

lemma length_decimal_pos: "0 < length (decimal n)"
  by (simp add: decimal.simps [of n])

lemma length_padStart: "n < 10 ^ k \<Longrightarrow> 0 < k \<Longrightarrow> length (padStart k n) = k"
  using length_decimal [of n k] by (simp add: padStart_def)

lemma isDigit_zero: "isDigit CHR ''0''"
  by (simp add: isDigit_def charCode_def)

lemma isDigit_padStart: "list_all isDigit (padStart k n)"
  using isDigit_decimal [of n] by (auto simp add: padStart_def list_all_iff isDigit_zero)

lemma radixVal_zeros: "radixVal 10 (replicate j CHR ''0'' @ ds) = radixVal 10 ds"
  by (induction j) (simp_all add: radixVal_def radixDigit_def charCode_def)

lemma radixVal_padStart: "radixVal 10 (padStart k n) = n"
  by (simp add: padStart_def radixVal_zeros radixVal_decimal)

lemma fixedDigits_padStart:
  assumes "n < 10 ^ k" "0 < k"
  shows "fixedDigits k (padStart k n @ rest) = Some (int n)"
  using length_padStart [OF assms] isDigit_padStart [of k n]
  by (simp add: fixedDigits_def radixVal_padStart)

lemma drop_padStart:
  assumes "n < 10 ^ k" "0 < k"
  shows "drop k (padStart k n @ rest) = rest"
  using length_padStart [OF assms] by simp

text \<open>\<open>parseInt\<close> reads a string of decimal digits as the number it writes.\<close>

lemma isDigit_not_white: "isDigit c \<Longrightarrow> \<not> isWhiteSpace c"
  by (auto simp add: isDigit_def isWhiteSpace_def)

lemma isDigit_radix10: "isRadixDigit 10 c = isDigit c"
  by (auto simp add: isRadixDigit_def radixDigit_def isDigit_def Let_def)

lemma isDigit_not_sign:
  "isDigit c \<Longrightarrow> c \<noteq> CHR ''-'' \<and> c \<noteq> CHR ''+'' \<and> c \<noteq> CHR ''x'' \<and> c \<noteq> CHR ''X''"
  by (auto simp add: isDigit_def charCode_def)

lemma parseInt_digits:
  assumes "ds \<noteq> []" "list_all isDigit ds"
  shows "parseInt ds = Some (int (radixVal 10 ds))"
proof -
  from assms obtain c cs where ds: "ds = c # cs" and c: "isDigit c" and cs: "list_all isDigit cs"
    by (cases ds) auto
  have t: "trimStart ds = ds" using c by (simp add: trimStart_def ds isDigit_not_white)
  have s: "stripSign ds = (False, ds)" using isDigit_not_sign [OF c] by (simp add: ds)
  have p: "(case nonDecimalPrefix ds of
              Some (r, xs) \<Rightarrow> if r = 16 then (16, xs) else (10, ds)
            | None \<Rightarrow> (10, ds)) = (10, ds)"
  proof (cases cs)
    case Nil
    then show ?thesis by (simp add: ds)
  next
    case (Cons d es)
    then have "isDigit d" using cs by simp
    then show ?thesis using isDigit_not_sign [of d] by (simp add: ds Cons)
  qed
  have w: "takeWhile (isRadixDigit 10) ds = ds"
    using assms(2) by (simp add: isDigit_radix10 list_all_iff)
  show ?thesis using assms(1) by (simp add: parseInt_def t s p w)
qed

subsection \<open>The calendar\<close>

declare yearSearch.simps [simp del]

lemma DaysInYear_bounds: "365 \<le> DaysInYear y \<and> DaysInYear y \<le> 366"
  by (simp add: DaysInYear_def)

lemma DayFromYear_1970: "DayFromYear 1970 = 0"
  by (simp add: DayFromYear_def)

lemma DayFromYear_mono: "y \<le> y' \<Longrightarrow> DayFromYear y \<le> DayFromYear y'"
proof (induction y' rule: int_ge_induct)
  case base
  show ?case by simp
next
  case (step i)
  then show ?case using DayFromYear_less [of i] by simp
qed

lemma DayFromYear_upper: "0 \<le> k \<Longrightarrow> DayFromYear (1970 + k) \<le> 366 * k"
proof (induction k rule: int_ge_induct)
  case base
  show ?case by (simp add: DayFromYear_1970)
next
  case (step i)
  have "DayFromYear (1970 + (i + 1)) = DayFromYear (1970 + i) + DaysInYear (1970 + i)"
    using DayFromYear_Suc [of "1970 + i"] by (simp add: add.assoc)
  then show ?case using step DaysInYear_bounds [of "1970 + i"] by simp
qed

lemma DayFromYear_lower: "k \<le> 0 \<Longrightarrow> DayFromYear (1970 + k) \<le> 365 * k"
proof (induction k rule: int_le_induct)
  case base
  show ?case by (simp add: DayFromYear_1970)
next
  case (step i)
  have "DayFromYear (1970 + i) = DayFromYear (1970 + (i - 1)) + DaysInYear (1970 + (i - 1))"
    using DayFromYear_Suc [of "1970 + (i - 1)"] by simp
  then show ?case using step DaysInYear_bounds [of "1970 + (i - 1)"] by simp
qed

lemma mult_div_le_int: "0 < b \<Longrightarrow> b * (a div b) \<le> a" for a b :: int
proof -
  assume "0 < b"
  then have "0 \<le> a mod b" by simp
  moreover have "b * (a div b) + a mod b = a" by simp
  ultimately show ?thesis by linarith
qed

lemma yearSearch_start:
  "DayFromYear (1970 + (if 0 \<le> d then d div 366 else d div 365)) \<le> d"
proof (cases "0 \<le> d")
  case True
  define k where "k = d div 366"
  have k: "0 \<le> k" using True by (simp add: k_def pos_imp_zdiv_nonneg_iff)
  have "366 * k \<le> d" unfolding k_def by (rule mult_div_le_int) simp
  then show ?thesis using DayFromYear_upper [OF k] True by (simp add: k_def)
next
  case False
  define k where "k = d div 365"
  have k: "k \<le> 0" using False by (simp add: k_def div_neg_pos_less0 less_imp_le)
  have "365 * k \<le> d" unfolding k_def by (rule mult_div_le_int) simp
  then show ?thesis using DayFromYear_lower [OF k] False by (simp add: k_def)
qed

lemma yearSearch_spec:
  "DayFromYear y \<le> d \<Longrightarrow>
     DayFromYear (yearSearch y d) \<le> d \<and> d < DayFromYear (yearSearch y d + 1)"
proof (induction y d rule: yearSearch.induct)
  case (1 y d)
  show ?case
  proof (cases "DayFromYear (y + 1) \<le> d")
    case True
    then show ?thesis using 1(1) [OF True True] by (simp add: yearSearch.simps [of y d])
  next
    case False
    then show ?thesis using 1(2) by (simp add: yearSearch.simps [of y d])
  qed
qed

text \<open>The year of a day is the largest year that starts on or before it.\<close>

lemma YearFromDay_spec:
  "DayFromYear (YearFromDay d) \<le> d \<and> d < DayFromYear (YearFromDay d + 1)"
  unfolding YearFromDay_def by (rule yearSearch_spec [OF yearSearch_start])

lemma YearFromDay_unique:
  assumes "DayFromYear y \<le> d" "d < DayFromYear (y + 1)"
  shows "YearFromDay d = y"
proof (rule ccontr)
  assume ne: "YearFromDay d \<noteq> y"
  note s = YearFromDay_spec [of d]
  show False
  proof (cases "YearFromDay d < y")
    case True
    then have "DayFromYear (YearFromDay d + 1) \<le> DayFromYear y" by (intro DayFromYear_mono) simp
    then show False using s assms by simp
  next
    case False
    then have "DayFromYear (y + 1) \<le> DayFromYear (YearFromDay d)"
      using ne by (intro DayFromYear_mono) simp
    then show False using s assms by simp
  qed
qed

lemma monthDay_spec:
  assumes "\<forall>l \<in> set ls. 0 < l" "0 \<le> x" "x < sum_list ls"
  shows "fst (monthDay ls x) < length ls \<and> 1 \<le> snd (monthDay ls x)
         \<and> snd (monthDay ls x) \<le> ls ! fst (monthDay ls x)
         \<and> sum_list (take (fst (monthDay ls x)) ls) + snd (monthDay ls x) - 1 = x"
  using assms
proof (induction ls arbitrary: x)
  case Nil
  then show ?case by simp
next
  case (Cons l ls)
  show ?case
  proof (cases "x < l")
    case True
    then show ?thesis using Cons.prems by simp
  next
    case False
    then have "0 \<le> x - l" "x - l < sum_list ls" using Cons.prems by simp_all
    moreover have "\<forall>l \<in> set ls. 0 < l" using Cons.prems by simp
    ultimately show ?thesis using Cons.IH [of "x - l"] False
      by (simp add: split_beta)
  qed
qed

lemma sum_monthLengths: "sum_list (monthLengths (isLeapYear y)) = DaysInYear y"
  by (simp add: monthLengths_def DaysInYear_def)

lemma monthLengths_pos: "\<forall>l \<in> set (monthLengths b). 0 < l"
  by (simp add: monthLengths_def)

lemma length_monthLengths: "length (monthLengths b) = 12"
  by (simp add: monthLengths_def)

lemma monthLengths_le: "m < 12 \<Longrightarrow> monthLengths b ! m \<le> 31"
proof -
  assume "m < 12"
  then have "monthLengths b ! m \<in> set (monthLengths b)" by (simp add: length_monthLengths)
  then show ?thesis by (auto simp add: monthLengths_def)
qed

lemma DayWithinYear_bounds: "0 \<le> DayWithinYear t \<and> DayWithinYear t < DaysInYear (YearFromTime t)"
  using YearFromDay_spec [of "Day t"] DayFromYear_Suc [of "YearFromTime t"]
  by (simp add: DayWithinYear_def YearFromTime_def)

text \<open>The year, month and day of an instant name a day of the calendar, and that day is its own.\<close>

lemma calendar_fields:
  "MonthFromTime t < 12 \<and> 1 \<le> DateFromTime t
   \<and> DateFromTime t \<le> monthLengths (isLeapYear (YearFromTime t)) ! MonthFromTime t
   \<and> MakeDay (YearFromTime t) (MonthFromTime t) (DateFromTime t) = Day t"
proof -
  note b = DayWithinYear_bounds [of t]
  have "DayWithinYear t < sum_list (monthLengths (isLeapYear (YearFromTime t)))"
    using b by (simp add: sum_monthLengths)
  from monthDay_spec [OF monthLengths_pos _ this] b
  show ?thesis
    by (simp add: MonthFromTime_def DateFromTime_def MakeDay_def length_monthLengths
        DayWithinYear_def)
qed

subsection \<open>Parsing what was formatted\<close>

lemma padStart2_cases:
  assumes "n < 100"
  shows "\<exists>a b. padStart 2 n = [a, b] \<and> (\<forall>rest. fixedDigits 2 (a # b # rest) = Some (int n))"
proof -
  have l: "length (padStart 2 n) = 2" using assms by (simp add: length_padStart)
  then obtain a b where p: "padStart 2 n = [a, b]"
    by (cases "padStart 2 n"; cases "tl (padStart 2 n)") auto
  have "fixedDigits 2 (a # b # rest) = Some (int n)" for rest
    using fixedDigits_padStart [of n 2 rest] assms by (simp add: p)
  with p show ?thesis by blast
qed

lemma isoFields_formatted:
  assumes "m < 100" "d < 100" "h < 100" "mi < 100" "s < 100"
  shows "isoFields (''-'' @ padStart 2 m @ ''-'' @ padStart 2 d @ ''T'' @ padStart 2 h @ '':''
           @ padStart 2 mi @ '':'' @ padStart 2 s @ ''Z'')
         = Some (int m, int d, int h, int mi, int s)"
proof -
  obtain a1 b1 where p1: "padStart 2 m = [a1, b1]"
    and f1: "\<And>rest. fixedDigits 2 (a1 # b1 # rest) = Some (int m)"
    using padStart2_cases [OF assms(1)] by blast
  obtain a2 b2 where p2: "padStart 2 d = [a2, b2]"
    and f2: "\<And>rest. fixedDigits 2 (a2 # b2 # rest) = Some (int d)"
    using padStart2_cases [OF assms(2)] by blast
  obtain a3 b3 where p3: "padStart 2 h = [a3, b3]"
    and f3: "\<And>rest. fixedDigits 2 (a3 # b3 # rest) = Some (int h)"
    using padStart2_cases [OF assms(3)] by blast
  obtain a4 b4 where p4: "padStart 2 mi = [a4, b4]"
    and f4: "\<And>rest. fixedDigits 2 (a4 # b4 # rest) = Some (int mi)"
    using padStart2_cases [OF assms(4)] by blast
  obtain a5 b5 where p5: "padStart 2 s = [a5, b5]"
    and f5: "\<And>rest. fixedDigits 2 (a5 # b5 # rest) = Some (int s)"
    using padStart2_cases [OF assms(5)] by blast
  show ?thesis
    by (simp add: isoFields_def p1 p2 p3 p4 p5 f1 f2 f3 f4 f5)
qed

lemma isoYear_formatted:
  assumes "- 999999 \<le> y" "y \<le> 999999"
  shows "isoYear (isoYearString y @ rest) = Some (y, rest)"
proof (cases "0 \<le> y \<and> y \<le> 9999")
  case True
  then have n: "nat y < 10 ^ 4" by (simp add: nat_less_iff)
  have l: "length (padStart 4 (nat y)) = 4" using n by (simp add: length_padStart)
  then obtain c cs where p: "padStart 4 (nat y) = c # cs"
    by (cases "padStart 4 (nat y)") auto
  have "isDigit c" using isDigit_padStart [of 4 "nat y"] by (simp add: p)
  then have c: "c \<noteq> CHR ''+''" "c \<noteq> CHR ''-''" using isDigit_not_sign [of c] by simp_all
  have f: "fixedDigits 4 (c # cs @ rest) = Some y"
    using fixedDigits_padStart [OF n, of rest] True by (simp add: p)
  have d: "drop 4 (c # cs @ rest) = rest"
    using drop_padStart [OF n, of rest] by (simp add: p)
  have lc: "length cs = 3" using l by (simp add: p)
  show ?thesis using True c by (simp add: isoYear_def isoYearString_def p f lc)
next
  case False
  define n where "n = nat \<bar>y\<bar>"
  have n: "n < 10 ^ 6" using assms by (simp add: n_def)
  have n0: "y < 0 \<Longrightarrow> int n \<noteq> 0" by (simp add: n_def)
  have v: "(if y < 0 then - int n else int n) = y" by (simp add: n_def)
  have f: "fixedDigits 6 (padStart 6 n @ rest) = Some (int n)"
    using fixedDigits_padStart [OF n, of rest] by simp
  have l: "length (padStart 6 n) = 6" using n by (simp add: length_padStart)
  show ?thesis using False n0 v
    by (auto simp add: isoYear_def isoYearString_def n_def [symmetric] f l)
qed

text \<open>The date-time string of a day of the calendar parses to that day and time.\<close>

lemma isoDateTime_formatted:
  assumes "- 999999 \<le> y" "y \<le> 999999" "m < 12" "1 \<le> d"
    "d \<le> monthLengths (isLeapYear y) ! m" "h \<le> 23" "mi \<le> 59" "s \<le> 59"
  shows "isoDateTime (isoYearString y @ ''-'' @ padStart 2 (m + 1) @ ''-'' @ padStart 2 (nat d)
           @ ''T'' @ padStart 2 h @ '':'' @ padStart 2 mi @ '':'' @ padStart 2 s @ ''Z'')
         = Some (MakeDate (MakeDay y m d) (MakeTime (int h) (int mi) (int s) 0))"
proof -
  have d31: "d \<le> 31" using assms(5) monthLengths_le [OF assms(3)] by (rule order_trans)
  have y: "isoYear (isoYearString y @ ''-'' @ padStart 2 (m + 1) @ ''-'' @ padStart 2 (nat d)
           @ ''T'' @ padStart 2 h @ '':'' @ padStart 2 mi @ '':'' @ padStart 2 s @ ''Z'')
         = Some (y, ''-'' @ padStart 2 (m + 1) @ ''-'' @ padStart 2 (nat d)
           @ ''T'' @ padStart 2 h @ '':'' @ padStart 2 mi @ '':'' @ padStart 2 s @ ''Z'')"
    using assms(1,2) by (rule isoYear_formatted)
  have f: "isoFields (''-'' @ padStart 2 (m + 1) @ ''-'' @ padStart 2 (nat d)
           @ ''T'' @ padStart 2 h @ '':'' @ padStart 2 mi @ '':'' @ padStart 2 s @ ''Z'')
         = Some (int (m + 1), int (nat d), int h, int mi, int s)"
    using assms(3,6,7,8) d31 by (intro isoFields_formatted) simp_all
  show ?thesis using assms(3-8)
    by (simp only: isoDateTime_def y f option.case prod.case) simp
qed

lemma div_le_bound: "0 < b \<Longrightarrow> a \<le> c * b \<Longrightarrow> a div b \<le> c" for a b c :: int
  using zdiv_mono1 [of a "c * b" b] by simp

lemma div_ge_bound: "0 < b \<Longrightarrow> c * b \<le> a \<Longrightarrow> c \<le> a div b" for a b c :: int
  using zdiv_mono1 [of "c * b" a b] by simp

lemma Day_bounds:
  assumes "\<bar>t\<bar> \<le> 8640000000000000"
  shows "- 100000000 \<le> Day t \<and> Day t \<le> 100000000"
proof -
  have p: "(0::int) < 86400000" by simp
  have "t \<le> 100000000 * 86400000" "- 100000000 * 86400000 \<le> t" using assms by simp_all
  then show ?thesis
    unfolding Day_def msPerDay_def
    using div_le_bound [OF p, of t 100000000] div_ge_bound [OF p, of "- 100000000" t] by blast
qed

lemma YearFromDay_bounds:
  assumes "- 100000000 \<le> n" "n \<le> 100000000"
  shows "- 999999 \<le> YearFromDay n \<and> YearFromDay n \<le> 999999"
proof -
  note s = YearFromDay_spec [of n]
  have hi: "DayFromYear 1000000 > 100000000" by (simp add: DayFromYear_def)
  have lo: "DayFromYear (- 999999) < - 100000000" by (simp add: DayFromYear_def)
  have "YearFromDay n \<le> 999999"
  proof (rule ccontr)
    assume "\<not> YearFromDay n \<le> 999999"
    then have "DayFromYear 1000000 \<le> DayFromYear (YearFromDay n)"
      by (intro DayFromYear_mono) simp
    then show False using s hi assms by simp
  qed
  moreover have "- 999999 \<le> YearFromDay n"
  proof (rule ccontr)
    assume "\<not> - 999999 \<le> YearFromDay n"
    then have "DayFromYear (YearFromDay n + 1) \<le> DayFromYear (- 999999)"
      by (intro DayFromYear_mono) simp
    then show False using s lo assms by simp
  qed
  ultimately show ?thesis by simp
qed

lemma not_isDigit_T: "\<not> isDigit CHR ''T''"
  by (simp add: isDigit_def charCode_def)

lemma no_T_padStart: "CHR ''T'' \<notin> set (padStart k n)"
  using isDigit_padStart [of k n] not_isDigit_T by (auto simp add: list_all_iff)

lemma no_T_isoYearString: "CHR ''T'' \<notin> set (isoYearString y)"
  using no_T_padStart by (simp add: isoYearString_def)

lemma takeWhile_until: "x \<notin> set a \<Longrightarrow> takeWhile (\<lambda>c. c \<noteq> x) (a @ x # b) = a"
  by (induction a) auto

lemma splitT0_toISOString:
  "splitT0 (toISOString t) = isoYearString (YearFromTime t) @ ''-''
     @ padStart 2 (MonthFromTime t + 1) @ ''-'' @ padStart 2 (nat (DateFromTime t))"
proof -
  define a where "a = isoYearString (YearFromTime t) @ ''-''
     @ padStart 2 (MonthFromTime t + 1) @ ''-'' @ padStart 2 (nat (DateFromTime t))"
  define b where "b = padStart 2 (nat (HourFromTime t)) @ '':''
       @ padStart 2 (nat (MinFromTime t)) @ '':'' @ padStart 2 (nat (SecFromTime t)) @ ''.''
       @ padStart 3 (nat (msFromTime t)) @ ''Z''"
  have t: "toISOString t = a @ CHR ''T'' # b"
    by (simp add: toISOString_def a_def b_def)
  have "CHR ''T'' \<notin> set a"
    using no_T_padStart no_T_isoYearString by (simp add: a_def)
  then have "takeWhile (\<lambda>c. c \<noteq> CHR ''T'') (a @ CHR ''T'' # b) = a"
    by (rule takeWhile_until)
  then show ?thesis by (simp add: splitT0_def t a_def)
qed

lemma noon_suffix:
  "''T12:00:00Z'' = ''T'' @ padStart 2 12 @ '':'' @ padStart 2 0 @ '':'' @ padStart 2 0 @ ''Z''"
  by (simp add: padStart_def decimal.simps digitChar_def)

lemma midnight_suffix:
  "''T00:00:00Z'' = ''T'' @ padStart 2 0 @ '':'' @ padStart 2 0 @ '':'' @ padStart 2 0 @ ''Z''"
  by (simp add: padStart_def decimal.simps digitChar_def)

lemma end_of_day_suffix:
  "''T23:59:59Z'' = ''T'' @ padStart 2 23 @ '':'' @ padStart 2 59 @ '':'' @ padStart 2 59 @ ''Z''"
  by (simp add: padStart_def decimal.simps digitChar_def)

lemma sum_take_bounds:
  assumes "\<forall>l \<in> set ls. (0::int) < l"
  shows "0 \<le> sum_list (take m ls) \<and> sum_list (take m ls) \<le> sum_list ls"
proof -
  have "sum_list (take m ls) + sum_list (drop m ls) = sum_list ls"
    by (simp flip: sum_list_append)
  moreover have "0 \<le> sum_list (take m ls)"
    using assms by (intro sum_list_nonneg) (metis in_set_takeD less_imp_le)
  moreover have "0 \<le> sum_list (drop m ls)"
    using assms by (intro sum_list_nonneg) (metis in_set_dropD less_imp_le)
  ultimately show ?thesis by simp
qed

lemma MakeDay_bounds:
  assumes "validCalendarDate y m d"
  shows "- 719528 \<le> MakeDay (int y) (m - 1) (int d) \<and> MakeDay (int y) (m - 1) (int d) \<le> 2933000"
proof -
  have y: "0 \<le> int y" "int y \<le> 9999" using assms by (simp_all add: validCalendarDate_def)
  have m: "m - 1 < 12" using assms unfolding validCalendarDate_def by arith
  have d: "1 \<le> int d" "int d \<le> 31"
    using assms monthLengths_le [OF m, of "isLeapYear (int y)"]
    by (auto simp add: validCalendarDate_def)
  have lo: "DayFromYear 0 = - 719528" by (simp add: DayFromYear_def)
  have hi: "DayFromYear 9999 = 2932532" by (simp add: DayFromYear_def)
  have "DayFromYear 0 \<le> DayFromYear (int y)" "DayFromYear (int y) \<le> DayFromYear 9999"
    using y by (simp_all add: DayFromYear_mono)
  moreover have "0 \<le> sum_list (take (m - 1) (monthLengths (isLeapYear (int y))))
      \<and> sum_list (take (m - 1) (monthLengths (isLeapYear (int y)))) \<le> DaysInYear (int y)"
    using sum_take_bounds [OF monthLengths_pos, of "m - 1" "isLeapYear (int y)"]
    by (simp add: sum_monthLengths)
  ultimately show ?thesis
    using d DaysInYear_bounds [of "int y"] by (simp add: MakeDay_def lo hi)
qed

text \<open>
  With \<open>T00:00:00Z\<close> behind it a calendar date parses to its first instant, with
  \<open>T23:59:59Z\<close> to its last second and with \<open>T12:00:00Z\<close> to its noon, in UTC.
\<close>

lemma Date_parse_calendarDate:
  assumes "validCalendarDate y m d"
  shows "Date_parse env (calendarDate y m d @ ''T00:00:00Z'') = Some (utcMidnight y m d)"
    and "Date_parse env (calendarDate y m d @ ''T23:59:59Z'') = Some (utcMidnight y m d + 86399000)"
    and "Date_parse env (calendarDate y m d @ ''T12:00:00Z'') = Some (utcMidnight y m d + 43200000)"
proof -
  have v: "- 999999 \<le> int y" "int y \<le> 999999" "m - 1 < 12" "1 \<le> int d"
    "int d \<le> monthLengths (isLeapYear (int y)) ! (m - 1)" "m - 1 + 1 = m"
    using assms unfolding validCalendarDate_def by (simp, simp, arith, simp, simp, arith)
  have ys: "isoYearString (int y) = padStart 4 y"
    using assms by (simp add: isoYearString_def validCalendarDate_def)
  have p: "isoDateTime (calendarDate y m d @ ''T'' @ padStart 2 h @ '':'' @ padStart 2 mi @ '':''
             @ padStart 2 s @ ''Z'')
           = Some (MakeDate (MakeDay (int y) (m - 1) (int d)) (MakeTime (int h) (int mi) (int s) 0))"
    if "h \<le> 23" "mi \<le> 59" "s \<le> 59" for h mi s
    using isoDateTime_formatted [OF v(1-5) that, unfolded v(6)] by (simp add: calendarDate_def ys)
  note b = MakeDay_bounds [OF assms]
  have c: "TimeClip (utcMidnight y m d + k) = Some (utcMidnight y m d + k)"
    if "0 \<le> k" "k \<le> 86399000" for k
    using b that by (simp add: TimeClip_def utcMidnight_def msPerDay_def abs_le_iff)
  show "Date_parse env (calendarDate y m d @ ''T00:00:00Z'') = Some (utcMidnight y m d)"
    using p [of 0 0 0] c [of 0] unfolding midnight_suffix
    by (simp add: Date_parse_def MakeDate_def MakeTime_def utcMidnight_def)
  show "Date_parse env (calendarDate y m d @ ''T23:59:59Z'') = Some (utcMidnight y m d + 86399000)"
    using p [of 23 59 59] c [of 86399000] unfolding end_of_day_suffix
    by (simp add: Date_parse_def MakeDate_def MakeTime_def utcMidnight_def)
  show "Date_parse env (calendarDate y m d @ ''T12:00:00Z'') = Some (utcMidnight y m d + 43200000)"
    using p [of 12 0 0] c [of 43200000] unfolding noon_suffix
    by (simp add: Date_parse_def MakeDate_def MakeTime_def utcMidnight_def)
qed

section \<open>The handlers\<close>

subsection \<open>What a successful call returns\<close>

lemma getLog_Inr:
  assumes "getLog env db uid f t l = Inr r"
  obtains oid and u :: user where "ObjectId env uid = Some oid"
    "findById env (users db) uid = Some u"
    "r = \<lparr>log_id = user_id u, log_username = username u,
          log_count = countDocuments oid (exercises db),
          log_entries = map (logEntryOf env) (applyLimit l (find_sorted
             \<lparr>q_userId = oid,
              q_gte = (if truthy f then Date_parse env (text_of f @ ''T00:00:00Z'') else None),
              q_lte = (if truthy t then Date_parse env (text_of t @ ''T23:59:59Z'') else None)\<rparr>
             (exercises db)))\<rparr>"
  using assms
  by (auto simp add: getLog_def isValid_def Let_def split: option.splits if_splits)

lemma addExercise_Inr:
  assumes "addExercise env now db uid de du da = (Inr res, db')"
  obtains oid and u :: user and t where "ObjectId env uid = Some oid"
    "findById env (users db) uid = Some u" "truthy de" "truthy du"
    "Number (text_of du) \<noteq> NaN" "exerciseDate env now da = Some t"
    "res = \<lparr>res_id = user_id u, res_username = username u, res_description = text_of de,
            res_duration = Number (text_of du), res_date = renderDate env t\<rparr>"
    "db' = db\<lparr>exercises := exercises db @ [\<lparr>userId = oid, description = text_of de,
            duration = Number (text_of du), date = t\<rparr>]\<rparr>"
  using assms
  by (auto simp add: addExercise_def isValid_def isNaN_def Let_def split: option.splits if_splits)

lemma sorted_applyLimit: "sorted (map date es) \<Longrightarrow> sorted (map date (applyLimit l es))"
  by (auto simp add: applyLimit_def take_map [symmetric] sorted_wrt_take split: option.splits)

lemma set_applyLimit: "set (applyLimit l es) \<subseteq> set es"
  by (auto simp add: applyLimit_def split: option.splits dest: in_set_takeD)

text \<open>The answer with a limit, from the answer to the same request without one.\<close>

lemma limited_log_entries:
  "getLog env db uid f t l =
     (case getLog env db uid f t None of
        Inl m \<Rightarrow> Inl m
      | Inr r \<Rightarrow> Inr (r\<lparr>log_entries :=
          (if truthy l then
             (case parseInt (text_of l) of
                None \<Rightarrow> log_entries r
              | Some n \<Rightarrow> if 0 < n then take (nat n) (log_entries r) else log_entries r)
           else log_entries r)\<rparr>))"
  by (auto simp add: getLog_def applyLimit_def Let_def take_map split: option.splits)

text \<open>
  A log is returned only when every given bound parses; the query then keeps the user's
  exercises within the bounds, and the limit takes the first exercises of the result.
\<close>

lemma getLog_Inr_bounds:
  assumes "getLog env db uid f t l = Inr r"
  shows "\<not> (truthy f \<and> Date_parse env (text_of f @ ''T00:00:00Z'') = None)"
    and "\<not> (truthy t \<and> Date_parse env (text_of t @ ''T23:59:59Z'') = None)"
  using assms
  by (auto simp add: getLog_def Let_def split: option.splits if_splits)

lemma matches_bounds:
  assumes "\<not> (truthy f \<and> Date_parse env (text_of f @ ''T00:00:00Z'') = None)"
    and "\<not> (truthy t \<and> Date_parse env (text_of t @ ''T23:59:59Z'') = None)"
  shows "matches \<lparr>q_userId = oid,
           q_gte = (if truthy f then Date_parse env (text_of f @ ''T00:00:00Z'') else None),
           q_lte = (if truthy t then Date_parse env (text_of t @ ''T23:59:59Z'') else None)\<rparr>
         = (\<lambda>e. userId e = oid
              \<and> (truthy f \<longrightarrow>
                   (\<exists>lo. Date_parse env (text_of f @ ''T00:00:00Z'') = Some lo \<and> lo \<le> date e))
              \<and> (truthy t \<longrightarrow>
                   (\<exists>hi. Date_parse env (text_of t @ ''T23:59:59Z'') = Some hi \<and> date e \<le> hi)))"
  using assms by (auto simp add: matches_def fun_eq_iff split: option.splits)

lemma applyLimit_take:
  "applyLimit l es =
     (case (if truthy l then parseInt (text_of l) else None) of
        None \<Rightarrow> es
      | Some n \<Rightarrow> if 0 < n then take (nat n) es else es)"
  by (simp add: applyLimit_def)

text \<open>Without a date, the exercise is dated at UTC noon of the clock's UTC day.\<close>

lemma exerciseDate_default:
  assumes "\<not> truthy da" "\<bar>now\<bar> \<le> 8640000000000000"
  shows "exerciseDate env now da = TimeClip (Day now * msPerDay + 43200000)"
proof -
  note c = calendar_fields [of now]
  have y: "- 999999 \<le> YearFromTime now \<and> YearFromTime now \<le> 999999"
    unfolding YearFromTime_def using Day_bounds [OF assms(2)] by (intro YearFromDay_bounds) simp_all
  have "isoDateTime (splitT0 (toISOString now) @ ''T12:00:00Z'')
    = Some (MakeDate (MakeDay (YearFromTime now) (MonthFromTime now) (DateFromTime now))
        (MakeTime (int 12) (int 0) (int 0) 0))"
    unfolding splitT0_toISOString noon_suffix append_assoc
    using y c by (intro isoDateTime_formatted) simp_all
  then have "isoDateTime (splitT0 (toISOString now) @ ''T12:00:00Z'')
    = Some (Day now * msPerDay + 43200000)"
    using c by (simp add: MakeDate_def MakeTime_def)
  then show ?thesis using assms(1) by (simp add: exerciseDate_def Date_parse_def)
qed

section \<open>The sample server, evaluated\<close>

lemma sample_invalid: "\<not> isValid (sampleEnv 0) ''bob''"
  by (simp add: isValid_def sampleEnv_def sampleObjectId_def)

lemma sample_valid: "isValid (sampleEnv 0) nobody"
  by code_simp

lemma sample_notfound: "findById (sampleEnv 0) (users sampleStore) nobody = None"
  by code_simp

lemmas digit_eval = radixVal_def radixDigit_def isRadixDigit_def charCode_def isDigit_def
  isWhiteSpace_def

lemmas parse_eval = Date_parse_def isoDateTime_def isoYear_def isoFields_def fixedDigits_def
  MakeDay_def MakeDate_def MakeTime_def msPerDay_def monthLengths_def isLeapYear_def
  DayFromYear_def TimeClip_def digit_eval

lemmas calendar_eval = YearFromTime_def YearFromDay_def Day_def msPerDay_def yearSearch.simps
  DayFromYear_def DayWithinYear_def MonthFromTime_def DateFromTime_def monthLengths_def
  isLeapYear_def WeekDay_def

lemmas render_eval = TimeClip_def LocalTime_def sampleEnv_def weekdayNames_def monthNames_def
  padStart_def decimal.simps digitChar_def

lemmas getLog_eval = getLog_def isValid_def applyLimit_def find_sorted_def matches_def
  countDocuments_def fiveDays_def exerciseOn_def sampleStore_def

lemma sample_ObjectId_bob: "ObjectId (sampleEnv off) bob = Some bob"
  by (simp add: sampleEnv_def sampleObjectId_def bob_def toLowerHex_def digit_eval)

lemma sample_findById_bob:
  "findById (sampleEnv off) [\<lparr>user_id = bob, username = ''bob''\<rparr>] bob
     = Some \<lparr>user_id = bob, username = ''bob''\<rparr>"
  by (simp add: findById_def sample_ObjectId_bob)

lemma parse_from_jan03: "Date_parse (sampleEnv off) ''2024-01-03T00:00:00Z'' = Some 1704240000000"
  by (simp add: parse_eval)

lemma parse_noon_jan03: "Date_parse (sampleEnv off) ''2024-01-03T12:00:00Z'' = Some 1704283200000"
  by (simp add: parse_eval)

lemma parseInt_1: "parseInt ''1'' = Some 1"
  by (simp add: parseInt_def trimStart_def digit_eval)

lemma parseInt_2: "parseInt ''2'' = Some 2"
  by (simp add: parseInt_def trimStart_def digit_eval)

lemma parseInt_1abc: "parseInt ''1abc'' = Some 1"
  by (simp add: parseInt_def trimStart_def digit_eval)

lemma Number_1abc: "Number ''1abc'' = NaN"
  by (simp add: Number_def trim_def unsignedDecimal_def exponentPart_def digit_eval)

lemma Number_30: "Number ''30'' = Finite 30"
  by (simp add: Number_def trim_def unsignedDecimal_def exponentPart_def scale10_def digit_eval)

lemma Number_minus5: "Number ''-5'' = Finite (- 5)"
  by (simp add: Number_def trim_def unsignedDecimal_def exponentPart_def scale10_def digit_eval)

lemma year_jan03: "YearFromTime 1704283200000 = 2024"
  by (simp add: calendar_eval)

lemma month_jan03: "MonthFromTime 1704283200000 = 0"
  by (simp add: calendar_eval)

lemma date_jan03: "DateFromTime 1704283200000 = 3"
  by (simp add: calendar_eval)

lemma weekday_jan03: "WeekDay 1704283200000 = 3"
  by (simp add: calendar_eval)

lemma render_jan03: "renderDate (sampleEnv 0) 1704283200000 = ''Wed Jan 03 2024''"
  unfolding renderDate_def toDateString_def Let_def
  by (simp add: render_eval year_jan03 month_jan03 date_jan03 weekday_jan03)

lemma log_all_fiveDays:
  "getLog (sampleEnv 0) fiveDays bob None None None =
     Inr \<lparr>log_id = bob, log_username = ''bob'', log_count = 5,
          log_entries = map (logEntryOf (sampleEnv 0)) (map exerciseOn
            [1704110400000, 1704196800000, 1704283200000, 1704369600000, 1704456000000])\<rparr>"
  by (simp add: getLog_eval sample_ObjectId_bob sample_findById_bob)

lemma alice_not_bob: "alice \<noteq> bob"
  by (simp add: alice_def bob_def)

lemma sample_findById_bob_mixed:
  "findById (sampleEnv off) (users mixedStore) bob = Some \<lparr>user_id = bob, username = ''bob''\<rparr>"
  by (simp add: findById_def sample_ObjectId_bob mixedStore_def alice_not_bob)

lemma log_from_mixedStore:
  "getLog (sampleEnv 0) mixedStore bob (Some ''2024-01-03'') None None =
     Inr \<lparr>log_id = bob, log_username = ''bob'', log_count = 5,
          log_entries = map (logEntryOf (sampleEnv 0)) (map exerciseOn
            [1704283200000, 1704369600000, 1704456000000])\<rparr>"
proof -
  have e: "exercises mixedStore =
        [\<lparr>userId = alice, description = ''swim'', duration = Finite 45, date = 1704369600000\<rparr>,
         exerciseOn 1704110400000, exerciseOn 1704456000000, exerciseOn 1704283200000,
         exerciseOn 1704196800000, exerciseOn 1704369600000]"
    by (simp add: mixedStore_def)
  show ?thesis
    using alice_not_bob
    by (simp add: getLog_def isValid_def applyLimit_def find_sorted_def matches_def
        countDocuments_def sample_ObjectId_bob sample_findById_bob_mixed parse_from_jan03 e
        exerciseOn_def)
qed

lemma log_from_limit_mixedStore:
  "getLog (sampleEnv 0) mixedStore bob (Some ''2024-01-03'') None (Some ''1'') =
     Inr \<lparr>log_id = bob, log_username = ''bob'', log_count = 5,
          log_entries = [\<lparr>entry_description = ''run'', entry_duration = Finite 30,
                          entry_date = ''Wed Jan 03 2024''\<rparr>]\<rparr>"
  by (simp add: limited_log_entries [of _ _ _ _ _ "Some ''1''"] log_from_mixedStore parseInt_1
      logEntryOf_def exerciseOn_def render_jan03)

lemma log_1abc_fiveDays:
  "getLog (sampleEnv 0) fiveDays bob None None (Some ''1abc'') =
     Inr \<lparr>log_id = bob, log_username = ''bob'', log_count = 5,
          log_entries = map (logEntryOf (sampleEnv 0)) (map exerciseOn [1704110400000])\<rparr>"
  by (simp add: limited_log_entries [of _ _ _ _ _ "Some ''1abc''"] log_all_fiveDays
      parseInt_1abc)

lemma add_jan03:
  "addExercise (sampleEnv 0) 0 sampleStore bob (Some ''run'') (Some ''30'') (Some ''2024-01-03'')
     = (Inr \<lparr>res_id = bob, res_username = ''bob'', res_description = ''run'',
             res_duration = Finite 30, res_date = ''Wed Jan 03 2024''\<rparr>,
        sampleStore\<lparr>exercises := [exerciseOn 1704283200000]\<rparr>)"
  by (simp add: addExercise_def isValid_def sample_ObjectId_bob sample_findById_bob Number_30
      isNaN_def exerciseDate_def parse_noon_jan03 render_jan03 exerciseOn_def sampleStore_def
      Let_def)

lemma add_minus5:
  "addExercise (sampleEnv 0) 0 sampleStore bob (Some ''run'') (Some ''-5'') (Some ''2024-01-03'')
     = (Inr \<lparr>res_id = bob, res_username = ''bob'', res_description = ''run'',
             res_duration = Finite (- 5), res_date = ''Wed Jan 03 2024''\<rparr>,
        sampleStore\<lparr>exercises := [\<lparr>userId = bob, description = ''run'',
             duration = Finite (- 5), date = 1704283200000\<rparr>]\<rparr>)"
  by (simp add: addExercise_def isValid_def sample_ObjectId_bob sample_findById_bob Number_minus5
      isNaN_def exerciseDate_def parse_noon_jan03 render_jan03 sampleStore_def Let_def)

lemmas calendarDate_eval = calendarDate_def validCalendarDate_def utcMidnight_def padStart_def
  decimal.simps digitChar_def monthLengths_def isLeapYear_def MakeDay_def DayFromYear_def
  msPerDay_def

lemma parse_yesterday: "Date_parse (sampleEnv off) ''yesterdayT00:00:00Z'' = None"
  by (simp add: parse_eval sampleEnv_def)

lemma utc_day_of_clock: "Day 1705352400000 * msPerDay + 43200000 = 1705320000000"
  by (simp add: Day_def msPerDay_def)

lemma sample_bad_duration:
  "fst (addExercise (sampleEnv 0) 0 sampleStore bob (Some ''run'') (Some ''abc'') None)
     = Inl ''Duration must be a number''"
  by code_simp

section \<open>Properties of the handlers\<close>

subsection \<open>The count is the user's total\<close>

text \<open>
  Claim C1. Whenever \<open>getLog\<close> returns a log, its \<open>count\<close> is the number of all stored
  exercises of the user, the same for every choice of \<open>from\<close>, \<open>to\<close> and \<open>limit\<close>. Its
  \<open>log\<close> is made of the user's exercises whose date is at or after the instant of \<open>from\<close>
  and at or before the instant of \<open>to\<close> (each when given), sorted by date, and of these
  the first \<open>parseInt(limit)\<close> when that is above 0. With five exercises of the user from
  2024-01-01 to 2024-01-05, stored after an exercise of another user and not in order,
  \<open>from=2024-01-03\<close> and \<open>limit=1\<close> give a log of one entry, the one of 2024-01-03, and
  the count 5.
\<close>

theorem getLog_count:
  assumes "getLog env db uid f t l = Inr r"
  shows "\<exists>oid. ObjectId env uid = Some oid
           \<and> log_count r = length (filter (\<lambda>e. userId e = oid) (exercises db))
           \<and> (\<forall>f' t' l' r'. getLog env db uid f' t' l' = Inr r' \<longrightarrow> log_count r' = log_count r)
           \<and> (\<exists>kept. kept = sort_key date
                 (filter (\<lambda>e. userId e = oid
                    \<and> (truthy f \<longrightarrow>
                         (\<exists>lo. Date_parse env (text_of f @ ''T00:00:00Z'') = Some lo \<and> lo \<le> date e))
                    \<and> (truthy t \<longrightarrow>
                         (\<exists>hi. Date_parse env (text_of t @ ''T23:59:59Z'') = Some hi \<and> date e \<le> hi)))
                   (exercises db))
               \<and> log_entries r = map (logEntryOf env)
                   (case (if truthy l then parseInt (text_of l) else None) of
                      None \<Rightarrow> kept
                    | Some n \<Rightarrow> if 0 < n then take (nat n) kept else kept))"
proof -
  from assms obtain oid and u :: user where o: "ObjectId env uid = Some oid"
    and r: "r = \<lparr>log_id = user_id u, log_username = username u,
          log_count = countDocuments oid (exercises db),
          log_entries = map (logEntryOf env) (applyLimit l (find_sorted
             \<lparr>q_userId = oid,
              q_gte = (if truthy f then Date_parse env (text_of f @ ''T00:00:00Z'') else None),
              q_lte = (if truthy t then Date_parse env (text_of t @ ''T23:59:59Z'') else None)\<rparr>
             (exercises db)))\<rparr>"
    by (rule getLog_Inr)
  have c: "log_count r' = log_count r" if "getLog env db uid f' t' l' = Inr r'" for f' t' l' r'
    using that o r by (auto elim!: getLog_Inr)
  note m = matches_bounds [OF getLog_Inr_bounds [OF assms], of oid]
  have "log_entries r = map (logEntryOf env)
         (case (if truthy l then parseInt (text_of l) else None) of
            None \<Rightarrow> sort_key date
                 (filter (\<lambda>e. userId e = oid
                    \<and> (truthy f \<longrightarrow>
                         (\<exists>lo. Date_parse env (text_of f @ ''T00:00:00Z'') = Some lo \<and> lo \<le> date e))
                    \<and> (truthy t \<longrightarrow>
                         (\<exists>hi. Date_parse env (text_of t @ ''T23:59:59Z'') = Some hi \<and> date e \<le> hi)))
                   (exercises db))
          | Some n \<Rightarrow> if 0 < n then take (nat n) (sort_key date
                 (filter (\<lambda>e. userId e = oid
                    \<and> (truthy f \<longrightarrow>
                         (\<exists>lo. Date_parse env (text_of f @ ''T00:00:00Z'') = Some lo \<and> lo \<le> date e))
                    \<and> (truthy t \<longrightarrow>
                         (\<exists>hi. Date_parse env (text_of t @ ''T23:59:59Z'') = Some hi \<and> date e \<le> hi)))
                   (exercises db))) else sort_key date
                 (filter (\<lambda>e. userId e = oid
                    \<and> (truthy f \<longrightarrow>
                         (\<exists>lo. Date_parse env (text_of f @ ''T00:00:00Z'') = Some lo \<and> lo \<le> date e))
                    \<and> (truthy t \<longrightarrow>
                         (\<exists>hi. Date_parse env (text_of t @ ''T23:59:59Z'') = Some hi \<and> date e \<le> hi)))
                   (exercises db)))"
    unfolding r by (simp only: logResponse.simps applyLimit_take find_sorted_def m)
  then show ?thesis using o r c by (simp add: countDocuments_def)
qed


theorem getLog_count_witness:
  "getLog (sampleEnv 0) mixedStore bob (Some ''2024-01-03'') None (Some ''1'') =
     Inr \<lparr>log_id = bob, log_username = ''bob'', log_count = 5,
          log_entries = [\<lparr>entry_description = ''run'', entry_duration = Finite 30,
                          entry_date = ''Wed Jan 03 2024''\<rparr>]\<rparr>
   \<and> length (filter (\<lambda>e. userId e = bob) (exercises mixedStore)) = 5
   \<and> map userId (exercises mixedStore) = [alice, bob, bob, bob, bob, bob]
   \<and> map date (exercises mixedStore)
       = [1704369600000, 1704110400000, 1704456000000, 1704283200000, 1704196800000,
          1704369600000]"
proof -
  note g = log_from_limit_mixedStore
  from getLog_count [OF g] obtain oid where
    o: "ObjectId (sampleEnv 0) bob = Some oid"
    and c: "log_count \<lparr>log_id = bob, log_username = ''bob'', log_count = 5,
          log_entries = [\<lparr>entry_description = ''run'', entry_duration = Finite 30,
                          entry_date = ''Wed Jan 03 2024''\<rparr>]\<rparr>
        = length (filter (\<lambda>e. userId e = oid) (exercises mixedStore))"
    by blast
  have "oid = bob" using o by (simp add: sample_ObjectId_bob)
  then have "length (filter (\<lambda>e. userId e = bob) (exercises mixedStore)) = 5"
    using c by simp
  moreover have "map userId (exercises mixedStore) = [alice, bob, bob, bob, bob, bob]"
    by (simp add: mixedStore_def exerciseOn_def)
  moreover have "map date (exercises mixedStore)
       = [1704369600000, 1704110400000, 1704456000000, 1704283200000, 1704196800000,
          1704369600000]"
    by (simp add: mixedStore_def exerciseOn_def)
  ultimately show ?thesis using g by simp
qed

subsection \<open>The rendered day and the server's zone\<close>

text \<open>
  Claim C2 does not hold of the code. \<open>renderDate\<close> subtracts the zone's offset from the
  stored instant and \<open>toDateString\<close> subtracts it once more, so the offset counts twice.
  On a server seven hours west of UTC (\<open>getTimezoneOffset\<close> is 420) the exercise added
  with the date \<open>2024-01-15\<close> is stored at noon of that day in UTC, and both the response
  and the log show it as \<open>Sun Jan 14 2024\<close>.
\<close>

theorem rendered_day_shifts:
  "addExercise (sampleEnv 420) 0 sampleStore bob (Some ''run'') (Some ''30'') (Some ''2024-01-15'') =
     (Inr \<lparr>res_id = bob, res_username = ''bob'', res_description = ''run'',
           res_duration = Finite 30, res_date = ''Sun Jan 14 2024''\<rparr>,
      sampleStore\<lparr>exercises := [exerciseOn 1705320000000]\<rparr>)
   \<and> getLog (sampleEnv 420) (sampleStore\<lparr>exercises := [exerciseOn 1705320000000]\<rparr>) bob
       None None None =
     Inr \<lparr>log_id = bob, log_username = ''bob'', log_count = 1,
          log_entries = [\<lparr>entry_description = ''run'', entry_duration = Finite 30,
                          entry_date = ''Sun Jan 14 2024''\<rparr>]\<rparr>
   \<and> Date_parse (sampleEnv 420) ''2024-01-15T12:00:00Z'' = Some 1705320000000"
proof -
  have p: "Date_parse (sampleEnv 420) ''2024-01-15T12:00:00Z'' = Some 1705320000000"
    by (simp add: parse_eval)
  have r: "renderDate (sampleEnv 420) 1705320000000 = ''Sun Jan 14 2024''"
    unfolding renderDate_def toDateString_def Let_def
    by (simp add: render_eval calendar_eval)
  have "addExercise (sampleEnv 420) 0 sampleStore bob (Some ''run'') (Some ''30'')
      (Some ''2024-01-15'') =
     (Inr \<lparr>res_id = bob, res_username = ''bob'', res_description = ''run'',
           res_duration = Finite 30, res_date = ''Sun Jan 14 2024''\<rparr>,
      sampleStore\<lparr>exercises := [exerciseOn 1705320000000]\<rparr>)"
    by (simp add: addExercise_def isValid_def sample_ObjectId_bob sample_findById_bob Number_30
        isNaN_def exerciseDate_def p r exerciseOn_def sampleStore_def Let_def)
  moreover have "getLog (sampleEnv 420) (sampleStore\<lparr>exercises := [exerciseOn 1705320000000]\<rparr>)
      bob None None None =
     Inr \<lparr>log_id = bob, log_username = ''bob'', log_count = 1,
          log_entries = [\<lparr>entry_description = ''run'', entry_duration = Finite 30,
                          entry_date = ''Sun Jan 14 2024''\<rparr>]\<rparr>"
    by (simp add: getLog_eval sample_ObjectId_bob sample_findById_bob logEntryOf_def r)
  ultimately show ?thesis using p by simp
qed

theorem rendered_day_shifts_witness:
  "\<exists>res db'. addExercise (sampleEnv 420) 0 sampleStore bob (Some ''run'') (Some ''30'')
       (Some ''2024-01-15'') = (Inr res, db')
     \<and> res_date res \<noteq> ''Mon Jan 15 2024''
     \<and> map date (exercises db') = [1705320000000]"
  using rendered_day_shifts by (simp add: exerciseOn_def)

subsection \<open>The date filter\<close>

text \<open>
  Claim C3. A bound is given when its parameter is present and not empty. For a known
  user, \<open>getLog\<close> answers \<open>Invalid from date format\<close> when \<open>from\<close> is given and
  \<open>from + 'T00:00:00Z'\<close> does not parse, and otherwise \<open>Invalid to date format\<close> when
  \<open>to\<close> is given and \<open>to + 'T23:59:59Z'\<close> does not parse. Otherwise it returns a log, made
  of exactly the user's exercises whose date is at or after the instant of \<open>from\<close> (when
  given) and at or before the instant of \<open>to\<close> (when given), in order of date and cut to
  the limit. For a calendar date \<open>YYYY-MM-DD\<close> the instant of \<open>from\<close> is 00:00:00 UTC of
  that day and the instant of \<open>to\<close> is 23:59:59 UTC of that day.
\<close>

theorem getLog_filter:
  assumes "ObjectId env uid = Some oid" "findById env (users db) uid = Some u"
  shows
    "(truthy f \<and> Date_parse env (text_of f @ ''T00:00:00Z'') = None \<longrightarrow>
        getLog env db uid f t l = Inl ''Invalid from date format'')
     \<and> (\<not> (truthy f \<and> Date_parse env (text_of f @ ''T00:00:00Z'') = None)
          \<and> truthy t \<and> Date_parse env (text_of t @ ''T23:59:59Z'') = None \<longrightarrow>
        getLog env db uid f t l = Inl ''Invalid to date format'')
     \<and> (\<not> (truthy f \<and> Date_parse env (text_of f @ ''T00:00:00Z'') = None)
          \<and> \<not> (truthy t \<and> Date_parse env (text_of t @ ''T23:59:59Z'') = None) \<longrightarrow>
        (\<exists>r. getLog env db uid f t l = Inr r
           \<and> log_entries r = map (logEntryOf env) (applyLimit l (sort_key date
               (filter (\<lambda>e. userId e = oid
                   \<and> (truthy f \<longrightarrow>
                        (\<exists>lo. Date_parse env (text_of f @ ''T00:00:00Z'') = Some lo \<and> lo \<le> date e))
                   \<and> (truthy t \<longrightarrow>
                        (\<exists>hi. Date_parse env (text_of t @ ''T23:59:59Z'') = Some hi \<and> date e \<le> hi)))
                 (exercises db))))))
     \<and> (validCalendarDate y m d \<longrightarrow>
          Date_parse env (calendarDate y m d @ ''T00:00:00Z'') = Some (utcMidnight y m d)
          \<and> Date_parse env (calendarDate y m d @ ''T23:59:59Z'')
              = Some (utcMidnight y m d + 86399000))"
proof (intro conjI impI)
  assume "truthy f \<and> Date_parse env (text_of f @ ''T00:00:00Z'') = None"
  then show "getLog env db uid f t l = Inl ''Invalid from date format''"
    using assms by (simp add: getLog_def isValid_def)
next
  assume "\<not> (truthy f \<and> Date_parse env (text_of f @ ''T00:00:00Z'') = None)
          \<and> truthy t \<and> Date_parse env (text_of t @ ''T23:59:59Z'') = None"
  then show "getLog env db uid f t l = Inl ''Invalid to date format''"
    using assms by (auto simp add: getLog_def isValid_def)
next
  assume a: "\<not> (truthy f \<and> Date_parse env (text_of f @ ''T00:00:00Z'') = None)
          \<and> \<not> (truthy t \<and> Date_parse env (text_of t @ ''T23:59:59Z'') = None)"
  define q where "q = \<lparr>q_userId = oid,
      q_gte = (if truthy f then Date_parse env (text_of f @ ''T00:00:00Z'') else None),
      q_lte = (if truthy t then Date_parse env (text_of t @ ''T23:59:59Z'') else None)\<rparr>"
  have m: "matches q = (\<lambda>e. userId e = oid
       \<and> (truthy f \<longrightarrow>
            (\<exists>lo. Date_parse env (text_of f @ ''T00:00:00Z'') = Some lo \<and> lo \<le> date e))
       \<and> (truthy t \<longrightarrow>
            (\<exists>hi. Date_parse env (text_of t @ ''T23:59:59Z'') = Some hi \<and> date e \<le> hi)))"
    using a by (auto simp add: matches_def q_def fun_eq_iff split: option.splits)
  have "getLog env db uid f t l = Inr \<lparr>log_id = user_id u, log_username = username u,
          log_count = countDocuments oid (exercises db),
          log_entries = map (logEntryOf env) (applyLimit l (find_sorted q (exercises db)))\<rparr>"
    using assms a by (auto simp add: getLog_def isValid_def q_def)
  then show "\<exists>r. getLog env db uid f t l = Inr r
           \<and> log_entries r = map (logEntryOf env) (applyLimit l (sort_key date
               (filter (\<lambda>e. userId e = oid
                   \<and> (truthy f \<longrightarrow>
                        (\<exists>lo. Date_parse env (text_of f @ ''T00:00:00Z'') = Some lo \<and> lo \<le> date e))
                   \<and> (truthy t \<longrightarrow>
                        (\<exists>hi. Date_parse env (text_of t @ ''T23:59:59Z'') = Some hi \<and> date e \<le> hi)))
                 (exercises db))))"
    by (simp add: find_sorted_def m)
next
  assume "validCalendarDate y m d"
  then show "Date_parse env (calendarDate y m d @ ''T00:00:00Z'') = Some (utcMidnight y m d)"
    by (rule Date_parse_calendarDate)
next
  assume "validCalendarDate y m d"
  then show "Date_parse env (calendarDate y m d @ ''T23:59:59Z'')
              = Some (utcMidnight y m d + 86399000)"
    by (rule Date_parse_calendarDate)
qed

theorem getLog_filter_witness:
  "(\<exists>r. getLog (sampleEnv 0) fiveDays bob (Some ''2024-01-02'') (Some ''2024-01-04'') None = Inr r
        \<and> log_entries r = map (logEntryOf (sampleEnv 0)) (map exerciseOn
             [1704196800000, 1704283200000, 1704369600000]))
   \<and> getLog (sampleEnv 0) fiveDays bob (Some ''yesterday'') None None
       = Inl ''Invalid from date format''
   \<and> Date_parse (sampleEnv 0) ''2024-01-02T00:00:00Z'' = Some 1704153600000
   \<and> Date_parse (sampleEnv 0) ''2024-01-04T23:59:59Z'' = Some 1704412799000"
proof -
  have u: "findById (sampleEnv 0) (users fiveDays) bob = Some \<lparr>user_id = bob, username = ''bob''\<rparr>"
    by (simp add: fiveDays_def sampleStore_def sample_findById_bob)
  note th = getLog_filter [OF sample_ObjectId_bob u]
  have lo: "Date_parse (sampleEnv 0) ''2024-01-02T00:00:00Z'' = Some 1704153600000"
    using th [of None None None 2024 1 2] by (simp add: calendarDate_eval)
  have hi: "Date_parse (sampleEnv 0) ''2024-01-04T23:59:59Z'' = Some 1704412799000"
    using th [of None None None 2024 1 4] by (simp add: calendarDate_eval)
  have bad: "getLog (sampleEnv 0) fiveDays bob (Some ''yesterday'') None None
       = Inl ''Invalid from date format''"
    using th [of "Some ''yesterday''" None None 0 0 0] by (simp add: parse_yesterday)
  have "\<exists>r. getLog (sampleEnv 0) fiveDays bob (Some ''2024-01-02'') (Some ''2024-01-04'') None = Inr r
        \<and> log_entries r = map (logEntryOf (sampleEnv 0)) (map exerciseOn
             [1704196800000, 1704283200000, 1704369600000])"
    using th [of "Some ''2024-01-02''" "Some ''2024-01-04''" None 0 0 0]
    by (simp add: lo hi applyLimit_def fiveDays_def exerciseOn_def)
  with lo hi bad show ?thesis by blast
qed

subsection \<open>The limit\<close>

text \<open>
  Claim C4, as amended. The limit that \<open>getLog\<close> applies is \<open>parseInt(limit)\<close>: the integer
  written by the longest run of digits at the start of \<open>limit\<close>, after white space and a
  sign. When that integer is above 0 the ordered result is cut to that many entries;
  when \<open>limit\<close> is absent or empty, starts with no integer, or starts with an integer that
  is not above 0, the answer is the one without a limit, and it is never an error. A
  string of decimal digits is read as the number it writes.
\<close>

theorem getLog_limit:
  "(truthy l \<and> parseInt (text_of l) = Some n \<and> 0 < n \<longrightarrow>
      getLog env db uid f t l =
        (case getLog env db uid f t None of
           Inl m \<Rightarrow> Inl m
         | Inr r \<Rightarrow> Inr (r\<lparr>log_entries := take (nat n) (log_entries r)\<rparr>)))
   \<and> (\<not> truthy l \<or> parseInt (text_of l) = None
        \<or> (\<exists>k. parseInt (text_of l) = Some k \<and> k \<le> 0) \<longrightarrow>
      getLog env db uid f t l = getLog env db uid f t None)
   \<and> (ds \<noteq> [] \<and> list_all isDigit ds \<longrightarrow> parseInt ds = Some (int (radixVal 10 ds)))"
proof (intro conjI impI)
  assume "truthy l \<and> parseInt (text_of l) = Some n \<and> 0 < n"
  then show "getLog env db uid f t l =
        (case getLog env db uid f t None of
           Inl m \<Rightarrow> Inl m
         | Inr r \<Rightarrow> Inr (r\<lparr>log_entries := take (nat n) (log_entries r)\<rparr>))"
    by (auto simp add: limited_log_entries [of env db uid f t l] split: sum.splits)
next
  assume "\<not> truthy l \<or> parseInt (text_of l) = None
        \<or> (\<exists>k. parseInt (text_of l) = Some k \<and> k \<le> 0)"
  then show "getLog env db uid f t l = getLog env db uid f t None"
    by (auto simp add: limited_log_entries [of env db uid f t l] split: sum.splits)
next
  assume "ds \<noteq> [] \<and> list_all isDigit ds"
  then show "parseInt ds = Some (int (radixVal 10 ds))"
    by (simp add: parseInt_digits)
qed

theorem getLog_limit_witness:
  "getLog (sampleEnv 0) fiveDays bob None None (Some ''2'') =
     Inr \<lparr>log_id = bob, log_username = ''bob'', log_count = 5,
          log_entries = map (logEntryOf (sampleEnv 0)) (map exerciseOn
            [1704110400000, 1704196800000])\<rparr>
   \<and> getLog (sampleEnv 0) fiveDays bob None None (Some ''abc'')
       = getLog (sampleEnv 0) fiveDays bob None None None
   \<and> parseInt ''2'' = Some 2"
proof -
  have abc: "parseInt ''abc'' = None"
    by (simp add: parseInt_def trimStart_def digit_eval)
  show ?thesis
    using getLog_limit [of "Some ''2''" 2 "sampleEnv 0" fiveDays bob None None "''2''"]
      getLog_limit [of "Some ''abc''" 0 "sampleEnv 0" fiveDays bob None None "''2''"]
    by (simp add: parseInt_2 abc log_all_fiveDays)
qed

text \<open>
  Claim C4 as stated fails: \<open>1abc\<close> is not a number (\<open>Number\<close> gives \<open>NaN\<close>), yet
  \<open>getLog\<close> does not ignore it. \<open>parseInt\<close> reads the leading 1, and the log of the five
  exercises is cut to one entry.
\<close>

theorem limit_1abc_not_ignored:
  "Number ''1abc'' = NaN
   \<and> getLog (sampleEnv 0) fiveDays bob None None (Some ''1abc'') =
       Inr \<lparr>log_id = bob, log_username = ''bob'', log_count = 5,
            log_entries = map (logEntryOf (sampleEnv 0)) (map exerciseOn [1704110400000])\<rparr>
   \<and> getLog (sampleEnv 0) fiveDays bob None None None =
       Inr \<lparr>log_id = bob, log_username = ''bob'', log_count = 5,
            log_entries = map (logEntryOf (sampleEnv 0)) (map exerciseOn
              [1704110400000, 1704196800000, 1704283200000, 1704369600000, 1704456000000])\<rparr>
   \<and> getLog (sampleEnv 0) fiveDays bob None None (Some ''1abc'')
       \<noteq> getLog (sampleEnv 0) fiveDays bob None None None"
  by (simp add: Number_1abc log_1abc_fiveDays log_all_fiveDays)

subsection \<open>The log is in order of date\<close>

text \<open>
  Claim C5. The log that \<open>getLog\<close> returns lists stored exercises by ascending stored
  date, whatever the order in which they were inserted.
\<close>

theorem getLog_sorted:
  assumes "getLog env db uid f t l = Inr r"
  shows "\<exists>es. log_entries r = map (logEntryOf env) es \<and> sorted (map date es)
           \<and> set es \<subseteq> set (exercises db)"
proof -
  from assms obtain q where
    r: "log_entries r = map (logEntryOf env) (applyLimit l (find_sorted q (exercises db)))"
    by (auto elim!: getLog_Inr)
  have "sorted (map date (find_sorted q (exercises db)))"
    by (simp add: find_sorted_def)
  then have "sorted (map date (applyLimit l (find_sorted q (exercises db))))"
    by (rule sorted_applyLimit)
  moreover have "set (applyLimit l (find_sorted q (exercises db))) \<subseteq> set (exercises db)"
    using set_applyLimit [of l "find_sorted q (exercises db)"] by (auto simp add: find_sorted_def)
  ultimately show ?thesis using r by blast
qed

theorem getLog_sorted_witness:
  "map date (exercises fiveDays)
     = [1704283200000, 1704110400000, 1704369600000, 1704196800000, 1704456000000]
   \<and> getLog (sampleEnv 0) fiveDays bob None None None =
       Inr \<lparr>log_id = bob, log_username = ''bob'', log_count = 5,
            log_entries = map (logEntryOf (sampleEnv 0)) (map exerciseOn
              [1704110400000, 1704196800000, 1704283200000, 1704369600000, 1704456000000])\<rparr>
   \<and> (\<exists>es. log_entries \<lparr>log_id = bob, log_username = ''bob'', log_count = 5,
            log_entries = map (logEntryOf (sampleEnv 0)) (map exerciseOn
              [1704110400000, 1704196800000, 1704283200000, 1704369600000, 1704456000000])\<rparr>
         = map (logEntryOf (sampleEnv 0)) es
       \<and> sorted (map date es) \<and> set es \<subseteq> set (exercises fiveDays))"
proof (intro conjI)
  show "map date (exercises fiveDays)
     = [1704283200000, 1704110400000, 1704369600000, 1704196800000, 1704456000000]"
    by (simp add: fiveDays_def exerciseOn_def)
qed (rule log_all_fiveDays, rule getLog_sorted [OF log_all_fiveDays])

subsection \<open>The stored duration\<close>

text \<open>
  Claim C6, as amended. Every exercise that \<open>addExercise\<close> stores has as its duration the
  number that \<open>Number\<close> reads from the duration field, which is not empty, and that number
  is not \<open>NaN\<close>. Nothing makes it positive or whole. The response carries the same number.
\<close>

theorem stored_duration:
  assumes "addExercise env now db uid de du da = (Inr res, db')"
  shows "\<exists>e. exercises db' = exercises db @ [e] \<and> truthy du
           \<and> duration e = Number (text_of du) \<and> \<not> isNaN (duration e)
           \<and> res_duration res = duration e"
proof -
  from assms obtain oid and u :: user and t where "truthy du" "Number (text_of du) \<noteq> NaN"
    and res: "res = \<lparr>res_id = user_id u, res_username = username u, res_description = text_of de,
            res_duration = Number (text_of du), res_date = renderDate env t\<rparr>"
    and db': "db' = db\<lparr>exercises := exercises db @ [\<lparr>userId = oid, description = text_of de,
            duration = Number (text_of du), date = t\<rparr>]\<rparr>"
    by (rule addExercise_Inr)
  then show ?thesis by (simp add: isNaN_def)
qed

theorem stored_duration_witness:
  "\<exists>e. exercises (sampleStore\<lparr>exercises := [exerciseOn 1704283200000]\<rparr>)
          = exercises sampleStore @ [e]
        \<and> duration e = Number ''30'' \<and> duration e = Finite 30 \<and> \<not> isNaN (duration e)"
proof -
  from stored_duration [OF add_jan03] obtain e where
    "exercises (sampleStore\<lparr>exercises := [exerciseOn 1704283200000]\<rparr>)
          = exercises sampleStore @ [e]"
    "duration e = Number (text_of (Some ''30''))" "\<not> isNaN (duration e)"
    by blast
  then show ?thesis by (intro exI [of _ e]) (simp add: Number_30)
qed

text \<open>
  Claim C6 as stated fails: the duration \<open>-5\<close> is accepted and stored, and it is not a
  positive integer.
\<close>

theorem negative_duration_stored:
  "addExercise (sampleEnv 0) 0 sampleStore bob (Some ''run'') (Some ''-5'') (Some ''2024-01-03'')
     = (Inr \<lparr>res_id = bob, res_username = ''bob'', res_description = ''run'',
             res_duration = Finite (- 5), res_date = ''Wed Jan 03 2024''\<rparr>,
        sampleStore\<lparr>exercises := [\<lparr>userId = bob, description = ''run'',
             duration = Finite (- 5), date = 1704283200000\<rparr>]\<rparr>)
   \<and> \<not> positiveInteger (Finite (- 5))"
  by (simp add: add_minus5 positiveInteger_def)

subsection \<open>The default date\<close>

text \<open>
  Claim C7, as amended. When the date field is absent or empty, the clock shows a valid
  time and the id and the other fields are accepted, \<open>addExercise\<close> stores the exercise
  at 12:00:00 UTC of the clock's day in UTC (the day of \<open>toISOString\<close>, which need not
  be the day of the server's zone), provided that instant is a valid time. The response
  shows \<open>renderDate\<close> of that instant.
\<close>

theorem default_date:
  assumes "\<not> truthy da" "\<bar>now\<bar> \<le> 8640000000000000"
    "Day now * msPerDay + 43200000 \<le> 8640000000000000"
    "ObjectId env uid = Some oid" "findById env (users db) uid = Some u"
    "truthy de" "truthy du" "\<not> isNaN (Number (text_of du))"
  shows "addExercise env now db uid de du da =
           (Inr \<lparr>res_id = user_id u, res_username = username u, res_description = text_of de,
                 res_duration = Number (text_of du),
                 res_date = renderDate env (Day now * msPerDay + 43200000)\<rparr>,
            db\<lparr>exercises := exercises db @ [\<lparr>userId = oid, description = text_of de,
                 duration = Number (text_of du), date = Day now * msPerDay + 43200000\<rparr>]\<rparr>)
         \<and> Day (Day now * msPerDay + 43200000) = Day now
         \<and> TimeWithinDay (Day now * msPerDay + 43200000) = MakeTime 12 0 0 0"
proof -
  have "- 100000000 \<le> Day now" using Day_bounds [OF assms(2)] by simp
  then have "\<bar>Day now * msPerDay + 43200000\<bar> \<le> 8640000000000000"
    using assms(3) by (simp add: msPerDay_def abs_le_iff)
  then have e: "exerciseDate env now da = Some (Day now * msPerDay + 43200000)"
    using exerciseDate_default [OF assms(1,2), of env] by (simp add: TimeClip_def)
  have p: "(0::int) < msPerDay" "(0::int) \<le> 43200000" "(43200000::int) < msPerDay"
    by (simp_all add: msPerDay_def)
  have eq: "Day now * msPerDay + 43200000 = msPerDay * Day now + 43200000" by simp
  have d: "Day (Day now * msPerDay + 43200000) = Day now"
    unfolding Day_def [of "Day now * msPerDay + 43200000"]
    using eq p(2,3) by (rule int_div_pos_eq)
  have w: "TimeWithinDay (Day now * msPerDay + 43200000) = MakeTime 12 0 0 0"
    unfolding TimeWithinDay_def MakeTime_def
    using int_mod_pos_eq [OF eq p(2,3)] by simp
  show ?thesis
    using assms(1,4-8) e d w
    by (simp add: addExercise_def isValid_def Let_def)
qed

theorem default_date_witness:
  "addExercise (sampleEnv 0) 1705352400000 sampleStore bob (Some ''run'') (Some ''30'') None =
     (Inr \<lparr>res_id = bob, res_username = ''bob'', res_description = ''run'',
           res_duration = Finite 30, res_date = renderDate (sampleEnv 0) 1705320000000\<rparr>,
      sampleStore\<lparr>exercises := [exerciseOn 1705320000000]\<rparr>)
   \<and> splitT0 (toISOString 1705352400000) = ''2024-01-15''
   \<and> Date_parse (sampleEnv 0) ''2024-01-15T12:00:00Z'' = Some 1705320000000"
proof -
  have "addExercise (sampleEnv 0) 1705352400000 sampleStore bob (Some ''run'') (Some ''30'') None =
     (Inr \<lparr>res_id = bob, res_username = ''bob'', res_description = ''run'',
           res_duration = Finite 30, res_date = renderDate (sampleEnv 0) 1705320000000\<rparr>,
      sampleStore\<lparr>exercises := [exerciseOn 1705320000000]\<rparr>)"
    using default_date [of None 1705352400000 "sampleEnv 0" bob bob sampleStore
        "\<lparr>user_id = bob, username = ''bob''\<rparr>" "Some ''run''" "Some ''30''"]
    by (simp add: utc_day_of_clock sample_ObjectId_bob sample_findById_bob Number_30 isNaN_def
        exerciseOn_def sampleStore_def)
  moreover have "splitT0 (toISOString 1705352400000) = ''2024-01-15''"
    unfolding splitT0_toISOString
    by (simp add: isoYearString_def padStart_def decimal.simps digitChar_def calendar_eval)
  moreover have "Date_parse (sampleEnv 0) ''2024-01-15T12:00:00Z'' = Some 1705320000000"
    by (simp add: parse_eval)
  ultimately show ?thesis by simp
qed

text \<open>
  Claim C7 as stated fails: on a server five hours east of UTC, at 02:00 of 2024-01-16
  in its zone (21:00 of 2024-01-15 in UTC), the exercise is stored at noon of 2024-01-15
  and shown as \<open>Mon Jan 15 2024\<close>, while the server's calendar shows \<open>Tue Jan 16 2024\<close>,
  whose UTC noon is another instant.
\<close>

theorem default_date_not_local_day:
  "addExercise (sampleEnv (- 300)) 1705352400000 sampleStore bob (Some ''run'') (Some ''30'') None =
     (Inr \<lparr>res_id = bob, res_username = ''bob'', res_description = ''run'',
           res_duration = Finite 30, res_date = ''Mon Jan 15 2024''\<rparr>,
      sampleStore\<lparr>exercises := [exerciseOn 1705320000000]\<rparr>)
   \<and> toDateString (sampleEnv (- 300)) (Some 1705352400000) = ''Tue Jan 16 2024''
   \<and> Date_parse (sampleEnv (- 300)) ''2024-01-16T12:00:00Z'' = Some 1705406400000"
proof -
  have e: "exerciseDate (sampleEnv (- 300)) 1705352400000 None = Some 1705320000000"
    using exerciseDate_default [of None 1705352400000 "sampleEnv (- 300)"]
    by (simp add: utc_day_of_clock TimeClip_def)
  have r: "renderDate (sampleEnv (- 300)) 1705320000000 = ''Mon Jan 15 2024''"
    unfolding renderDate_def toDateString_def Let_def
    by (simp add: render_eval calendar_eval)
  have "addExercise (sampleEnv (- 300)) 1705352400000 sampleStore bob (Some ''run'') (Some ''30'')
      None =
     (Inr \<lparr>res_id = bob, res_username = ''bob'', res_description = ''run'',
           res_duration = Finite 30, res_date = ''Mon Jan 15 2024''\<rparr>,
      sampleStore\<lparr>exercises := [exerciseOn 1705320000000]\<rparr>)"
    by (simp add: addExercise_def isValid_def sample_ObjectId_bob sample_findById_bob Number_30
        isNaN_def e r exerciseOn_def sampleStore_def Let_def)
  moreover have "toDateString (sampleEnv (- 300)) (Some 1705352400000) = ''Tue Jan 16 2024''"
    unfolding toDateString_def Let_def
    by (simp add: render_eval calendar_eval)
  moreover have "Date_parse (sampleEnv (- 300)) ''2024-01-16T12:00:00Z'' = Some 1705406400000"
    by (simp add: parse_eval)
  ultimately show ?thesis by simp
qed

subsection \<open>Malformed and unknown user ids\<close>

text \<open>
  Claim C8. In \<open>addExercise\<close> and in \<open>getLog\<close>, a user id that the driver does not accept
  is answered with \<open>Invalid user ID format\<close>, and an accepted id that no user has is
  answered with \<open>User not found\<close>. The two messages differ, so the client can tell the
  two failures apart. Whatever the other fields are, the answer is the same and
  \<open>addExercise\<close> leaves the collections as they were: no field is validated, nothing is
  inserted and nothing is queried.
\<close>

theorem id_errors:
  "(\<not> isValid env uid \<longrightarrow>
      addExercise env now db uid de du da = (Inl ''Invalid user ID format'', db)
      \<and> getLog env db uid f t l = Inl ''Invalid user ID format'')
   \<and> (isValid env uid \<and> findById env (users db) uid = None \<longrightarrow>
      addExercise env now db uid de du da = (Inl ''User not found'', db)
      \<and> getLog env db uid f t l = Inl ''User not found'')
   \<and> ''Invalid user ID format'' \<noteq> ''User not found''"
  by (simp add: addExercise_def getLog_def)

theorem id_errors_witness:
  "addExercise (sampleEnv 0) 0 sampleStore ''bob'' (Some ''run'') (Some ''30'') None
     = (Inl ''Invalid user ID format'', sampleStore)
   \<and> getLog (sampleEnv 0) sampleStore ''bob'' None None None = Inl ''Invalid user ID format''
   \<and> addExercise (sampleEnv 0) 0 sampleStore nobody (Some ''run'') (Some ''30'') None
     = (Inl ''User not found'', sampleStore)
   \<and> getLog (sampleEnv 0) sampleStore nobody None None None = Inl ''User not found''"
  using id_errors [of "sampleEnv 0" "''bob''" 0 sampleStore "Some ''run''" "Some ''30''"
      None None None None]
    id_errors [of "sampleEnv 0" nobody 0 sampleStore "Some ''run''" "Some ''30''"
      None None None None]
    sample_invalid sample_valid sample_notfound
  by simp

subsection \<open>A failed \<open>addExercise\<close> changes nothing\<close>

text \<open>
  Claim C9. Whenever \<open>addExercise\<close> answers with an error, the collections it returns
  are the ones it was given: no exercise is inserted. It answers with an error on a
  malformed id, an unknown user, a missing description or duration, a duration that is
  not a number, and a supplied date that does not parse.
\<close>

theorem addExercise_atomic:
  "(\<forall>m. fst (addExercise env now db uid de du da) = Inl m \<longrightarrow>
       snd (addExercise env now db uid de du da) = db)
   \<and> (\<not> isValid env uid \<or> findById env (users db) uid = None \<or> \<not> truthy de \<or> \<not> truthy du
        \<or> isNaN (Number (text_of du))
        \<or> (truthy da \<and> Date_parse env (text_of da @ ''T12:00:00Z'') = None)
      \<longrightarrow> (\<exists>m. fst (addExercise env now db uid de du da) = Inl m))"
  by (auto simp add: addExercise_def exerciseDate_def Let_def split: option.splits)

theorem addExercise_atomic_witness:
  "fst (addExercise (sampleEnv 0) 0 sampleStore bob (Some ''run'') (Some ''abc'') None)
     = Inl ''Duration must be a number''
   \<and> snd (addExercise (sampleEnv 0) 0 sampleStore bob (Some ''run'') (Some ''abc'') None)
     = sampleStore"
  using addExercise_atomic [of "sampleEnv 0" 0 sampleStore bob "Some ''run''" "Some ''abc''" None]
    sample_bad_duration
  by simp

subsection \<open>The date of the response and the date of the log\<close>

text \<open>
  Claim C10. When \<open>addExercise\<close> succeeds it stores one new exercise, and the date string
  of its response is the date string of the log entry that \<open>getLog\<close> later makes of that
  exercise: both are \<open>renderDate\<close> of the stored instant. The log of the user then holds
  that entry, with the description and the duration of the response.
\<close>

theorem response_date_is_log_date:
  assumes "addExercise env now db uid de du da = (Inr res, db')"
  shows "\<exists>e r. exercises db' = exercises db @ [e]
           \<and> getLog env db' uid None None None = Inr r
           \<and> logEntryOf env e \<in> set (log_entries r)
           \<and> entry_date (logEntryOf env e) = res_date res
           \<and> res_date res = renderDate env (date e)
           \<and> entry_description (logEntryOf env e) = res_description res
           \<and> entry_duration (logEntryOf env e) = res_duration res"
proof -
  from assms obtain oid and u :: user and t where o: "ObjectId env uid = Some oid"
    and u: "findById env (users db) uid = Some u"
    and res: "res = \<lparr>res_id = user_id u, res_username = username u, res_description = text_of de,
            res_duration = Number (text_of du), res_date = renderDate env t\<rparr>"
    and db': "db' = db\<lparr>exercises := exercises db @ [\<lparr>userId = oid, description = text_of de,
            duration = Number (text_of du), date = t\<rparr>]\<rparr>"
    by (rule addExercise_Inr)
  define e where "e = \<lparr>userId = oid, description = text_of de,
            duration = Number (text_of du), date = t\<rparr>"
  have ex: "exercises db' = exercises db @ [e]" by (simp add: db' e_def)
  have m: "matches \<lparr>q_userId = oid, q_gte = None, q_lte = None\<rparr> e"
    by (simp add: matches_def e_def)
  have g: "getLog env db' uid None None None
    = Inr \<lparr>log_id = user_id u, log_username = username u,
         log_count = countDocuments oid (exercises db'),
         log_entries = map (logEntryOf env)
           (find_sorted \<lparr>q_userId = oid, q_gte = None, q_lte = None\<rparr> (exercises db'))\<rparr>"
    using o u by (simp add: getLog_def isValid_def applyLimit_def db')
  have "e \<in> set (find_sorted \<lparr>q_userId = oid, q_gte = None, q_lte = None\<rparr> (exercises db'))"
    using m by (simp add: find_sorted_def ex)
  then have "logEntryOf env e \<in> set (map (logEntryOf env)
           (find_sorted \<lparr>q_userId = oid, q_gte = None, q_lte = None\<rparr> (exercises db')))"
    by simp
  with ex g show ?thesis
    by (intro exI [of _ e] exI) (auto simp add: res logEntryOf_def e_def)
qed

theorem response_date_is_log_date_witness:
  "\<exists>e r. exercises (sampleStore\<lparr>exercises := [exerciseOn 1704283200000]\<rparr>)
            = exercises sampleStore @ [e]
         \<and> getLog (sampleEnv 0) (sampleStore\<lparr>exercises := [exerciseOn 1704283200000]\<rparr>) bob
             None None None = Inr r
         \<and> logEntryOf (sampleEnv 0) e \<in> set (log_entries r)
         \<and> entry_date (logEntryOf (sampleEnv 0) e) = ''Wed Jan 03 2024''"
  using response_date_is_log_date [OF add_jan03] by auto

end
